theory Spec2Isabelle
  imports Complex_Main
begin

section \<open>Numbers, units and kinds\<close>

text \<open>
  A JavaScript \<^verbatim>\<open>number\<close> that is finite is modelled as a \<^typ>\<open>real\<close>: the
  arithmetic of the program is the exact arithmetic of the reals, and the rounding error of
  IEEE doubles is not part of the model. Where the program divides by a dimension read from
  the page, which can be zero, the quotient is a \<^typ>\<open>real option\<close>: \<open>None\<close> stands for
  a value that is not a finite number (\<^verbatim>\<open>NaN\<close>, \<^verbatim>\<open>Infinity\<close>, \<^verbatim>\<open>-Infinity\<close>).
\<close>

type_synonym number = "real option"

datatype Unit = Px | Mm | Pt

datatype BoundingBoxKind = Manual | Ocr | Table

text \<open>
  The test \<^verbatim>\<open>!s\<close> on a value of type \<^verbatim>\<open>string | null\<close>: true of \<^verbatim>\<open>null\<close> and of the
  empty string.
\<close>

definition falsy :: "string option \<Rightarrow> bool" where
  "falsy s = (s = None \<or> s = Some [])"

text \<open>\<^verbatim>\<open>Math.round\<close>: the nearest integer, a tie going to the larger one.\<close>

definition Math_round :: "real \<Rightarrow> real" where
  "Math_round v = of_int \<lfloor>v + 1 / 2\<rfloor>"

text \<open>The idiom \<^verbatim>\<open>Math.round(v * 100) / 100\<close> of the sources.\<close>

definition round100 :: "real \<Rightarrow> real" where
  "round100 v = Math_round (v * 100) / 100"

section \<open>utils/coordinateConversion.ts: scalar unit conversion\<close>

definition pointsToPixels :: "real \<Rightarrow> real" where
  "pointsToPixels points = ((points / 0.75) * 100) / 100"

definition pointsToMillimeters :: "real \<Rightarrow> real" where
  "pointsToMillimeters points = ((points / 2.834645669) * 100) / 100"

definition pixelsToPoints :: "real \<Rightarrow> real" where
  "pixelsToPoints pixels = pixels * 0.75"

definition millimetersToPoints :: "real \<Rightarrow> real" where
  "millimetersToPoints millimeters = millimeters * 2.834645669"

definition convertToUnits :: "real \<Rightarrow> Unit \<Rightarrow> Unit \<Rightarrow> real" where
  "convertToUnits v fromUnit toUnit =
     (if fromUnit = toUnit then v
      else
        let points = (if fromUnit = Px then pixelsToPoints v
                      else if fromUnit = Mm then millimetersToPoints v
                      else v)
        in if toUnit = Px then pointsToPixels points
           else if toUnit = Mm then pointsToMillimeters points
           else points)"

section \<open>components/BoundingBoxesList.tsx: the conversion behind the displayed values\<close>

definition BoundingBoxesList_convertToUnits :: "real \<Rightarrow> Unit \<Rightarrow> Unit \<Rightarrow> real" where
  "BoundingBoxesList_convertToUnits v fromUnit toUnit =
     (if fromUnit = toUnit then v
      else
        let points = (if fromUnit = Px then v * 0.75
                      else if fromUnit = Mm then v * 2.834645669
                      else v);
            result = (if toUnit = Px then points / 0.75
                      else if toUnit = Mm then points / 2.834645669
                      else points)
        in Math_round (result * 100) / 100)"

section \<open>The conversion as the specification words it\<close>

text \<open>
  The specification's transform through the canonical unit: a value in unit \<open>u\<close> is taken to
  points (\<open>point = pixel * 0.75\<close>, \<open>point = mm * 2.834645669\<close>) and from points to the
  target unit (\<open>pixel = point / 0.75\<close>, \<open>mm = point / 2.834645669\<close>).
\<close>

definition spec_toPoint :: "Unit \<Rightarrow> real \<Rightarrow> real" where
  "spec_toPoint u v = (case u of Px \<Rightarrow> v * 0.75 | Mm \<Rightarrow> v * 2.834645669 | Pt \<Rightarrow> v)"

definition spec_fromPoint :: "Unit \<Rightarrow> real \<Rightarrow> real" where
  "spec_fromPoint u p = (case u of Px \<Rightarrow> p / 0.75 | Mm \<Rightarrow> p / 2.834645669 | Pt \<Rightarrow> p)"

definition spec_transform :: "real \<Rightarrow> Unit \<Rightarrow> Unit \<Rightarrow> real" where
  "spec_transform v u1 u2 = spec_fromPoint u2 (spec_toPoint u1 v)"

text \<open>Rounding to the nearest integer with a tie going away from zero.\<close>

definition round_half_away :: "real \<Rightarrow> real" where
  "round_half_away r = sgn r * of_int \<lfloor>\<bar>r\<bar> + 1 / 2\<rfloor>"

text \<open>The specification's public conversion: the transform, rounded to 2 decimal places.\<close>

definition spec_convert :: "real \<Rightarrow> Unit \<Rightarrow> Unit \<Rightarrow> real" where
  "spec_convert v u1 u2 = round_half_away (spec_transform v u1 u2 * 100) / 100"

section \<open>Identifiers\<close>

text \<open>
  Identifiers are strings built by template literals from the clock (\<^verbatim>\<open>Date.now()\<close>, a
  count of milliseconds) and loop indices; \<open>dec\<close> is the decimal rendering of such a number.
  A function of the model that builds identifiers takes the reading of the clock as its
  argument \<open>now\<close>.
\<close>

fun dec :: "nat \<Rightarrow> string" where
  "dec n = (if n < 10 then [''0123456789'' ! n]
            else dec (n div 10) @ [''0123456789'' ! (n mod 10)])"

declare dec.simps [simp del]

section \<open>utils/types.ts: bounding boxes\<close>

record BoundingBox =
  box_id :: string
  box_x :: number
  box_y :: number
  box_width :: number
  box_height :: number
  box_unit :: Unit
  box_kind :: "BoundingBoxKind option"

text \<open>
  \<^verbatim>\<open>Partial<BoundingBox>\<close>: every key may be absent (\<open>None\<close>). The key \<^verbatim>\<open>kind\<close> is
  optional in a box already, so a partial that names it carries a kind or \<^verbatim>\<open>undefined\<close>.
\<close>

record BoundingBoxPartial =
  upd_id :: "string option"
  upd_x :: "number option"
  upd_y :: "number option"
  upd_width :: "number option"
  upd_height :: "number option"
  upd_unit :: "Unit option"
  upd_kind :: "BoundingBoxKind option option"

section \<open>hooks/useBoundingBoxes.ts: the bounding box store\<close>

text \<open>The state of the hook is the array \<^verbatim>\<open>boundingBoxes\<close>; every setter maps the previous
  array to the next one.\<close>

definition addBoundingBox :: "BoundingBox \<Rightarrow> BoundingBox list \<Rightarrow> BoundingBox list" where
  "addBoundingBox box prev = prev @ [box]"

definition addBoundingBoxes :: "BoundingBox list \<Rightarrow> BoundingBox list \<Rightarrow> BoundingBox list" where
  "addBoundingBoxes boxes prev = prev @ boxes"

definition removeBoundingBox :: "string \<Rightarrow> BoundingBox list \<Rightarrow> BoundingBox list" where
  "removeBoundingBox i prev = filter (\<lambda>box. box_id box \<noteq> i) prev"

definition removeBoundingBoxesByKind :: "BoundingBoxKind \<Rightarrow> BoundingBox list \<Rightarrow> BoundingBox list" where
  "removeBoundingBoxesByKind kind prev = filter (\<lambda>box. box_kind box \<noteq> Some kind) prev"

definition clearBoundingBoxes :: "BoundingBox list \<Rightarrow> BoundingBox list" where
  "clearBoundingBoxes prev = []"

text \<open>The object spread \<^verbatim>\<open>{ ...box, ...updates }\<close>: a key of \<open>updates\<close> wins.\<close>

definition spread :: "BoundingBox \<Rightarrow> BoundingBoxPartial \<Rightarrow> BoundingBox" where
  "spread box updates =
     \<lparr> box_id = (case upd_id updates of None \<Rightarrow> box_id box | Some v \<Rightarrow> v),
       box_x = (case upd_x updates of None \<Rightarrow> box_x box | Some v \<Rightarrow> v),
       box_y = (case upd_y updates of None \<Rightarrow> box_y box | Some v \<Rightarrow> v),
       box_width = (case upd_width updates of None \<Rightarrow> box_width box | Some v \<Rightarrow> v),
       box_height = (case upd_height updates of None \<Rightarrow> box_height box | Some v \<Rightarrow> v),
       box_unit = (case upd_unit updates of None \<Rightarrow> box_unit box | Some v \<Rightarrow> v),
       box_kind = (case upd_kind updates of None \<Rightarrow> box_kind box | Some v \<Rightarrow> v) \<rparr>"

definition updateBoundingBox ::
  "string \<Rightarrow> BoundingBoxPartial \<Rightarrow> BoundingBox list \<Rightarrow> BoundingBox list" where
  "updateBoundingBox i updates prev =
     map (\<lambda>box. if box_id box = i then spread box updates else box) prev"

definition getBoundingBox :: "BoundingBox list \<Rightarrow> string \<Rightarrow> BoundingBox option" where
  "getBoundingBox boundingBoxes i = find (\<lambda>box. box_id box = i) boundingBoxes"

definition getBoundingBoxesByKind :: "BoundingBox list \<Rightarrow> BoundingBoxKind \<Rightarrow> BoundingBox list" where
  "getBoundingBoxesByKind boundingBoxes kind = filter (\<lambda>box. box_kind box = Some kind) boundingBoxes"

text \<open>Example boxes and partial updates.\<close>

definition example_box :: BoundingBox where
  "example_box = \<lparr> box_id = ''a'', box_x = Some 1, box_y = Some 2, box_width = Some 30,
     box_height = Some 40, box_unit = Pt, box_kind = Some Manual \<rparr>"

definition example_other_box :: BoundingBox where
  "example_other_box = \<lparr> box_id = ''b'', box_x = Some 5, box_y = Some 6, box_width = Some 70,
     box_height = Some 80, box_unit = Pt, box_kind = Some Ocr \<rparr>"

definition example_move :: BoundingBoxPartial where
  "example_move = \<lparr> upd_id = None, upd_x = Some (Some 9), upd_y = None, upd_width = None,
     upd_height = None, upd_unit = None, upd_kind = None \<rparr>"

definition example_rename :: BoundingBoxPartial where
  "example_rename = \<lparr> upd_id = Some ''z'', upd_x = None, upd_y = None, upd_width = None,
     upd_height = None, upd_unit = None, upd_kind = None \<rparr>"

section \<open>utils/coordinateConversion.ts: coordinate spaces\<close>

record Rect =
  rect_x :: number
  rect_y :: number
  rect_width :: number
  rect_height :: number

record CoordinateConversion =
  conv_pt :: Rect
  conv_px :: Rect
  conv_mm :: Rect

record Dimensions =
  dim_width :: real
  dim_height :: real

text \<open>
  What the program reads of an \<^verbatim>\<open>HTMLImageElement\<close>: its size on the screen, its natural
  size, whether it has loaded, and \<open>imagePixels\<close>, the RGBA bytes that drawing the image on
  a canvas of its natural size and reading the canvas back yields.
\<close>

record HTMLImageElement =
  clientWidth :: real
  clientHeight :: real
  naturalWidth :: nat
  naturalHeight :: nat
  complete :: bool
  imagePixels :: "nat list"

text \<open>
  Division by a finite number and multiplication, on values that may not be finite. A
  finite value divided by zero is \<^verbatim>\<open>Infinity\<close>, \<^verbatim>\<open>-Infinity\<close> or \<^verbatim>\<open>NaN\<close>; an operand
  that is not finite gives a result that is not finite.
\<close>

definition js_div :: "number \<Rightarrow> real \<Rightarrow> number" where
  "js_div a b = (case a of None \<Rightarrow> None | Some u \<Rightarrow> if b = 0 then None else Some (u / b))"

definition js_mul :: "number \<Rightarrow> number \<Rightarrow> number" where
  "js_mul a b = (case a of None \<Rightarrow> None | Some u \<Rightarrow> (case b of None \<Rightarrow> None | Some v \<Rightarrow> Some (u * v)))"

definition imageCoordsToPDFPoints :: "number \<Rightarrow> number \<Rightarrow> number \<Rightarrow> number \<Rightarrow> CoordinateConversion" where
  "imageCoordsToPDFPoints imageX imageY imageWidth imageHeight =
     (let dpiScale = 300 / 72;
          pdfX = js_div imageX dpiScale;
          pdfY = js_div imageY dpiScale;
          pdfWidth = js_div imageWidth dpiScale;
          pdfHeight = js_div imageHeight dpiScale
      in \<lparr> conv_pt = \<lparr> rect_x = map_option round100 pdfX,
                       rect_y = map_option round100 pdfY,
                       rect_width = map_option round100 pdfWidth,
                       rect_height = map_option round100 pdfHeight \<rparr>,
           conv_px = \<lparr> rect_x = map_option (\<lambda>v. round100 (pointsToPixels v)) pdfX,
                       rect_y = map_option (\<lambda>v. round100 (pointsToPixels v)) pdfY,
                       rect_width = map_option (\<lambda>v. round100 (pointsToPixels v)) pdfWidth,
                       rect_height = map_option (\<lambda>v. round100 (pointsToPixels v)) pdfHeight \<rparr>,
           conv_mm = \<lparr> rect_x = map_option (\<lambda>v. round100 (pointsToMillimeters v)) pdfX,
                       rect_y = map_option (\<lambda>v. round100 (pointsToMillimeters v)) pdfY,
                       rect_width = map_option (\<lambda>v. round100 (pointsToMillimeters v)) pdfWidth,
                       rect_height = map_option (\<lambda>v. round100 (pointsToMillimeters v)) pdfHeight \<rparr> \<rparr>)"

text \<open>The result \<open>None\<close> is the \<^verbatim>\<open>null\<close> of the source.\<close>

definition displayToImageCoords ::
  "real \<Rightarrow> real \<Rightarrow> real \<Rightarrow> real \<Rightarrow> Dimensions option \<Rightarrow> HTMLImageElement option \<Rightarrow> Rect option" where
  "displayToImageCoords displayX displayY displayWidth displayHeight originalDimensions imageElement =
     (case originalDimensions of
        None \<Rightarrow> None
      | Some dims \<Rightarrow>
          (case imageElement of
             None \<Rightarrow> None
           | Some element \<Rightarrow>
               let displayImageWidth = clientWidth element;
                   displayImageHeight = clientHeight element;
                   scaleX = js_div (Some (dim_width dims)) displayImageWidth;
                   scaleY = js_div (Some (dim_height dims)) displayImageHeight
               in Some \<lparr> rect_x = js_mul (Some displayX) scaleX,
                           rect_y = js_mul (Some displayY) scaleY,
                           rect_width = js_mul (Some displayWidth) scaleX,
                           rect_height = js_mul (Some displayHeight) scaleY \<rparr>))"

definition pdfPointsToDisplayCoords ::
  "number \<Rightarrow> number \<Rightarrow> number \<Rightarrow> number \<Rightarrow> Dimensions option \<Rightarrow> HTMLImageElement option \<Rightarrow> Rect option" where
  "pdfPointsToDisplayCoords pdfX pdfY pdfWidth pdfHeight originalDimensions imageElement =
     (case originalDimensions of
        None \<Rightarrow> None
      | Some dims \<Rightarrow>
          (case imageElement of
             None \<Rightarrow> None
           | Some element \<Rightarrow>
               let displayImageWidth = clientWidth element;
                   displayImageHeight = clientHeight element;
                   dpiScale = 300 / 72;
                   imageX = js_mul pdfX (Some dpiScale);
                   imageY = js_mul pdfY (Some dpiScale);
                   imageWidth = js_mul pdfWidth (Some dpiScale);
                   imageHeight = js_mul pdfHeight (Some dpiScale);
                   scaleX = js_div (Some displayImageWidth) (dim_width dims);
                   scaleY = js_div (Some displayImageHeight) (dim_height dims)
               in Some \<lparr> rect_x = js_mul imageX scaleX,
                           rect_y = js_mul imageY scaleY,
                           rect_width = js_mul imageWidth scaleX,
                           rect_height = js_mul imageHeight scaleY \<rparr>))"

section \<open>hooks/usePDF.ts: display coordinates to PDF coordinates\<close>

text \<open>
  \<open>convertDisplayToPDF\<close> reads \<^verbatim>\<open>pdfInfo.originalDimensions\<close> from the state of the hook
  and, when no element is passed, the element \<^verbatim>\<open>#pdf-image\<close> of the document, here
  \<open>queried\<close>.
\<close>

definition convertDisplayToPDF ::
  "Dimensions option \<Rightarrow> HTMLImageElement option
   \<Rightarrow> real \<Rightarrow> real \<Rightarrow> real \<Rightarrow> real \<Rightarrow> HTMLImageElement option \<Rightarrow> CoordinateConversion option" where
  "convertDisplayToPDF originalDimensions queried displayX displayY displayWidth displayHeight imageElement =
     (if originalDimensions = None then None
      else
        let imgElement = (case imageElement of Some element \<Rightarrow> Some element | None \<Rightarrow> queried)
        in if imgElement = None then None
           else
             (case displayToImageCoords displayX displayY displayWidth displayHeight
                     originalDimensions imgElement of
                None \<Rightarrow> None
              | Some imageCoords \<Rightarrow>
                  Some (imageCoordsToPDFPoints (rect_x imageCoords) (rect_y imageCoords)
                          (rect_width imageCoords) (rect_height imageCoords))))"

text \<open>An image element shown at the size of a 2550 by 3300 raster (a letter page at 300 DPI),
  and one shown at a third of that size.\<close>

definition example_dims :: Dimensions where
  "example_dims = \<lparr> dim_width = 2550, dim_height = 3300 \<rparr>"

definition example_element_full :: HTMLImageElement where
  "example_element_full = \<lparr> clientWidth = 2550, clientHeight = 3300, naturalWidth = 2550,
     naturalHeight = 3300, complete = True, imagePixels = [] \<rparr>"

definition example_element_third :: HTMLImageElement where
  "example_element_third = \<lparr> clientWidth = 850, clientHeight = 1100, naturalWidth = 2550,
     naturalHeight = 3300, complete = True, imagePixels = [] \<rparr>"

section \<open>utils/types.ts and utils/ocrUtils.ts: OCR results\<close>

datatype OCRLevel = Word | Line | Paragraph | Block

datatype OCRLanguage = Eng | Jpn | EngJpn

record OCRSettings =
  language :: OCRLanguage
  level :: OCRLevel
  minConfidence :: real
  enhanceImage :: bool

record Corners =
  corner_x0 :: real
  corner_y0 :: real
  corner_x1 :: real
  corner_y1 :: real

record OCRBBox =
  bbox_original :: Corners
  bbox_pt :: "Rect option"
  bbox_px :: "Rect option"
  bbox_mm :: "Rect option"

text \<open>
  An item of any level (\<^verbatim>\<open>OCRWord\<close>, \<^verbatim>\<open>OCRLine\<close>, \<^verbatim>\<open>OCRParagraph\<close>, \<^verbatim>\<open>OCRBlock\<close> have
  the same fields). The consumers test the confidence with \<^verbatim>\<open>typeof\<close> and the box for
  presence, so both are optional here: \<open>item_confidence = None\<close> is a confidence that is
  missing or not of type \<^verbatim>\<open>number\<close>.
\<close>

record OCRItem =
  item_id :: string
  item_text :: string
  item_confidence :: "real option"
  item_bbox :: "OCRBBox option"

record OCRResult =
  ocr_text :: string
  ocr_confidence :: real
  ocr_words :: "OCRItem list"
  ocr_lines :: "OCRItem list"
  ocr_paragraphs :: "OCRItem list"
  ocr_blocks :: "OCRItem list"

text \<open>The raw result of the engine is untyped in the source; a key that is absent or
  \<^verbatim>\<open>undefined\<close> is \<open>None\<close>.\<close>

record TesseractBBox =
  tess_x0 :: "real option"
  tess_y0 :: "real option"
  tess_x1 :: "real option"
  tess_y1 :: "real option"

record TesseractItem =
  tess_text :: "string option"
  tess_confidence :: "real option"
  tess_bbox :: "TesseractBBox option"

record TesseractData =
  tess_data_text :: "string option"
  tess_data_confidence :: "real option"
  tess_words :: "TesseractItem list option"
  tess_lines :: "TesseractItem list option"
  tess_paragraphs :: "TesseractItem list option"
  tess_blocks :: "TesseractItem list option"

text \<open>\<^verbatim>\<open>bbox?.x0 ?? 0\<close> and its three siblings.\<close>

definition bbox_field :: "TesseractBBox option \<Rightarrow> (TesseractBBox \<Rightarrow> real option) \<Rightarrow> real" where
  "bbox_field bbox field =
     (case bbox of None \<Rightarrow> 0 | Some b \<Rightarrow> (case field b of None \<Rightarrow> 0 | Some v \<Rightarrow> v))"

text \<open>
  The body of the four \<^verbatim>\<open>map\<close> callbacks of \<open>processOCRResult\<close>, which differ in the
  level's name inside the identifier only.
\<close>

definition processOCRItem ::
  "string \<Rightarrow> (real \<Rightarrow> real \<Rightarrow> real \<Rightarrow> real \<Rightarrow> CoordinateConversion option) \<Rightarrow> nat
   \<Rightarrow> nat \<times> TesseractItem \<Rightarrow> OCRItem" where
  "processOCRItem levelName convertToPDFCoords now entry =
     (let index = fst entry;
          word = snd entry;
          bbox = tess_bbox word;
          x0 = bbox_field bbox tess_x0;
          y0 = bbox_field bbox tess_y0;
          x1 = bbox_field bbox tess_x1;
          y1 = bbox_field bbox tess_y1;
          width = max 1 (x1 - x0);
          height = max 1 (y1 - y0);
          coords = convertToPDFCoords x0 y0 width height
      in \<lparr> item_id = ''ocr-'' @ levelName @ ''-'' @ dec now @ ''-'' @ dec index,
           item_text = (case tess_text word of None \<Rightarrow> '''' | Some t \<Rightarrow> t),
           item_confidence = Some (case tess_confidence word of None \<Rightarrow> 0 | Some c \<Rightarrow> c),
           item_bbox = Some \<lparr> bbox_original = \<lparr> corner_x0 = x0, corner_y0 = y0,
                                                 corner_x1 = x1, corner_y1 = y1 \<rparr>,
                              bbox_pt = map_option conv_pt coords,
                              bbox_px = map_option conv_px coords,
                              bbox_mm = map_option conv_mm coords \<rparr> \<rparr>)"

definition processOCRItems ::
  "string \<Rightarrow> (real \<Rightarrow> real \<Rightarrow> real \<Rightarrow> real \<Rightarrow> CoordinateConversion option) \<Rightarrow> nat
   \<Rightarrow> TesseractItem list option \<Rightarrow> OCRItem list" where
  "processOCRItems levelName convertToPDFCoords now entries =
     (case entries of
        None \<Rightarrow> []
      | Some ws \<Rightarrow> map (processOCRItem levelName convertToPDFCoords now) (enumerate 0 ws))"

definition processOCRResult ::
  "TesseractData \<Rightarrow> (real \<Rightarrow> real \<Rightarrow> real \<Rightarrow> real \<Rightarrow> CoordinateConversion option) \<Rightarrow> nat
   \<Rightarrow> OCRResult" where
  "processOCRResult tesseractData convertToPDFCoords now =
     \<lparr> ocr_text = (case tess_data_text tesseractData of None \<Rightarrow> '''' | Some t \<Rightarrow> t),
       ocr_confidence = (case tess_data_confidence tesseractData of None \<Rightarrow> 0 | Some c \<Rightarrow> c),
       ocr_words = processOCRItems ''word'' convertToPDFCoords now (tess_words tesseractData),
       ocr_lines = processOCRItems ''line'' convertToPDFCoords now (tess_lines tesseractData),
       ocr_paragraphs =
         processOCRItems ''paragraph'' convertToPDFCoords now (tess_paragraphs tesseractData),
       ocr_blocks = processOCRItems ''block'' convertToPDFCoords now (tess_blocks tesseractData) \<rparr>"

definition getOCRDataByLevel :: "OCRResult \<Rightarrow> OCRLevel \<Rightarrow> OCRItem list" where
  "getOCRDataByLevel ocrData lvl =
     (case lvl of
        Line \<Rightarrow> ocr_lines ocrData
      | Paragraph \<Rightarrow> ocr_paragraphs ocrData
      | Block \<Rightarrow> ocr_blocks ocrData
      | Word \<Rightarrow> ocr_words ocrData)"

definition filterOCRResultsByConfidence :: "OCRItem list \<Rightarrow> real \<Rightarrow> OCRItem list" where
  "filterOCRResultsByConfidence items minConf =
     filter (\<lambda>item.
        let confidence = (case item_confidence item of Some c \<Rightarrow> c | None \<Rightarrow> 0)
        in confidence \<ge> minConf) items"

section \<open>hooks/useOCR.ts\<close>

record useOCR_state =
  settings :: OCRSettings
  textData :: "OCRResult option"

text \<open>The converter that \<open>performOCR\<close> hands to \<open>processOCRResult\<close>.\<close>

definition performOCR_convert :: "real \<Rightarrow> real \<Rightarrow> real \<Rightarrow> real \<Rightarrow> CoordinateConversion option" where
  "performOCR_convert x y width height =
     Some (imageCoordsToPDFPoints (Some x) (Some y) (Some width) (Some height))"

definition levelName :: "OCRLevel \<Rightarrow> string" where
  "levelName lvl = (case lvl of Word \<Rightarrow> ''word'' | Line \<Rightarrow> ''line''
                    | Paragraph \<Rightarrow> ''paragraph'' | Block \<Rightarrow> ''block'')"

text \<open>The \<^verbatim>\<open>forEach\<close> of \<open>generateBoundingBoxes\<close>: the items left, the index of the
  next one, and the array \<^verbatim>\<open>boxes\<close> pushed to so far.\<close>

fun generateBoundingBoxes_forEach ::
  "OCRLevel \<Rightarrow> nat \<Rightarrow> OCRItem list \<Rightarrow> nat \<Rightarrow> BoundingBox list \<Rightarrow> BoundingBox list" where
  "generateBoundingBoxes_forEach lvl now [] index boxes = boxes"
| "generateBoundingBoxes_forEach lvl now (item # rest) index boxes =
     generateBoundingBoxes_forEach lvl now rest (index + 1)
       (case item_bbox item of
          None \<Rightarrow> boxes
        | Some bbox \<Rightarrow>
            (case bbox_pt bbox of
               None \<Rightarrow> boxes
             | Some coords \<Rightarrow>
                 if rect_x coords \<noteq> Some 0 \<and> rect_y coords \<noteq> Some 0
                 then boxes @ [\<lparr> box_id = ''ocr-'' @ levelName lvl @ ''-bbox-'' @ dec now @ ''-'' @ dec index,
                                  box_x = rect_x coords,
                                  box_y = rect_y coords,
                                  box_width = rect_width coords,
                                  box_height = rect_height coords,
                                  box_unit = Pt,
                                  box_kind = Some Ocr \<rparr>]
                 else boxes))"

definition generateBoundingBoxes :: "useOCR_state \<Rightarrow> nat \<Rightarrow> Unit \<Rightarrow> BoundingBox list" where
  "generateBoundingBoxes st now unit =
     (case textData st of
        None \<Rightarrow> []
      | Some ocrData \<Rightarrow>
          let items = getOCRDataByLevel ocrData (level (settings st));
              filteredItems = filterOCRResultsByConfidence items (minConfidence (settings st))
          in generateBoundingBoxes_forEach (level (settings st)) now filteredItems 0 [])"

text \<open>The point-space rectangle that the generator reads of an item, and the geometry
  of a box.\<close>

definition item_coords :: "OCRItem \<Rightarrow> Rect option" where
  "item_coords item = (case item_bbox item of None \<Rightarrow> None | Some bbox \<Rightarrow> bbox_pt bbox)"

definition box_rect :: "BoundingBox \<Rightarrow> Rect" where
  "box_rect box = \<lparr> rect_x = box_x box, rect_y = box_y box,
                     rect_width = box_width box, rect_height = box_height box \<rparr>"

text \<open>Example items and engine results.\<close>

definition example_item :: "real option \<Rightarrow> OCRItem" where
  "example_item c = \<lparr> item_id = ''w'', item_text = ''text'', item_confidence = c,
                       item_bbox = None \<rparr>"

definition example_tess_word :: "real \<Rightarrow> real \<Rightarrow> real \<Rightarrow> real \<Rightarrow> TesseractItem" where
  "example_tess_word a b c d =
     \<lparr> tess_text = Some ''text'', tess_confidence = Some 90,
       tess_bbox = Some \<lparr> tess_x0 = Some a, tess_y0 = Some b, tess_x1 = Some c, tess_y1 = Some d \<rparr> \<rparr>"

definition example_tess_data :: TesseractData where
  "example_tess_data =
     \<lparr> tess_data_text = Some ''text text'', tess_data_confidence = Some 90,
       tess_words = Some [example_tess_word 0 50 100 100, example_tess_word 100 200 300 250],
       tess_lines = None, tess_paragraphs = None, tess_blocks = None \<rparr>"

definition example_ocr_state :: useOCR_state where
  "example_ocr_state =
     \<lparr> settings = \<lparr> language = Eng, level = Word, minConfidence = 60, enhanceImage = True \<rparr>,
       textData = Some (processOCRResult example_tess_data performOCR_convert 0) \<rparr>"

section \<open>app/image-pdf/page.tsx: drawing a box on the page image\<close>

record Point =
  point_x :: real
  point_y :: real

text \<open>
  The state that the handlers of \<open>ImagePDFTool\<close> read and write: the drawing state of
  the component, the store of \<open>useBoundingBoxes\<close>, \<^verbatim>\<open>pdfInfo.originalDimensions\<close> of
  \<open>usePDF\<close> and the image element behind \<^verbatim>\<open>imageRef\<close>.
\<close>

record ImagePDFTool_state =
  img_isDrawing :: bool
  img_startPoint :: "Point option"
  img_currentBox :: "BoundingBox option"
  img_selectedUnit :: Unit
  img_boundingBoxes :: "BoundingBox list"
  img_originalDimensions :: "Dimensions option"
  img_imageRef :: "HTMLImageElement option"
  img_imageDataUrl :: "string option"

text \<open>
  A handler takes the position of the mouse in the container
  (\<^verbatim>\<open>event.clientX - rect.left\<close>, \<^verbatim>\<open>event.clientY - rect.top\<close>), which is finite.
\<close>

definition ImagePDFTool_handleMouseDown :: "ImagePDFTool_state \<Rightarrow> real \<Rightarrow> real \<Rightarrow> ImagePDFTool_state" where
  "ImagePDFTool_handleMouseDown st imageX imageY =
     (if falsy (img_imageDataUrl st) then st
      else st \<lparr> img_isDrawing := True,
                img_startPoint := Some \<lparr> point_x = imageX, point_y = imageY \<rparr> \<rparr>)"

definition ImagePDFTool_handleMouseMove ::
  "ImagePDFTool_state \<Rightarrow> real \<Rightarrow> real \<Rightarrow> nat \<Rightarrow> ImagePDFTool_state" where
  "ImagePDFTool_handleMouseMove st currentX currentY now =
     (case img_startPoint st of
        None \<Rightarrow> st
      | Some start \<Rightarrow>
          if \<not> img_isDrawing st then st
          else
            let width = \<bar>currentX - point_x start\<bar>;
                height = \<bar>currentY - point_y start\<bar>;
                boxX = min currentX (point_x start);
                boxY = min currentY (point_y start)
            in st \<lparr> img_currentBox :=
                      Some \<lparr> box_id = ''temp-'' @ dec now,
                             box_x = Some boxX,
                             box_y = Some boxY,
                             box_width = Some width,
                             box_height = Some height,
                             box_unit = img_selectedUnit st,
                             box_kind = None \<rparr> \<rparr>)"

definition ImagePDFTool_handleMouseUp ::
  "ImagePDFTool_state \<Rightarrow> HTMLImageElement option \<Rightarrow> real \<Rightarrow> real \<Rightarrow> nat \<Rightarrow> ImagePDFTool_state" where
  "ImagePDFTool_handleMouseUp st queried currentX currentY now =
     (case img_startPoint st of
        None \<Rightarrow> st
      | Some start \<Rightarrow>
          if \<not> img_isDrawing st \<or> img_currentBox st = None then st
          else
            let width = \<bar>currentX - point_x start\<bar>;
                height = \<bar>currentY - point_y start\<bar>;
                boxX = min currentX (point_x start);
                boxY = min currentY (point_y start);
                imageElement = img_imageRef st;
                coords = convertDisplayToPDF (img_originalDimensions st) queried
                           boxX boxY width height imageElement;
                added =
                  (case coords of
                     None \<Rightarrow> img_boundingBoxes st
                   | Some c \<Rightarrow>
                       if width > 5 \<and> height > 5
                       then addBoundingBoxes
                              [\<lparr> box_id = ''bbox-'' @ dec now,
                                 box_x = rect_x (conv_pt c),
                                 box_y = rect_y (conv_pt c),
                                 box_width = rect_width (conv_pt c),
                                 box_height = rect_height (conv_pt c),
                                 box_unit = Pt,
                                 box_kind = Some Manual \<rparr>]
                              (img_boundingBoxes st)
                       else img_boundingBoxes st)
            in st \<lparr> img_boundingBoxes := added,
                     img_isDrawing := False,
                     img_startPoint := None,
                     img_currentBox := None \<rparr>)"

section \<open>app/page.tsx: drawing a box on the PDF canvas\<close>

text \<open>
  What \<open>PDFBboxTool\<close> reads of the loaded document: the number of its pages and the
  viewport of a page at a scale (\<^verbatim>\<open>page.getViewport({ scale })\<close>), both given by the PDF
  library.
\<close>

record PDFDocumentProxy =
  numPages :: nat
  getViewport :: "nat \<Rightarrow> real \<Rightarrow> Dimensions"

record PDFBboxTool_state =
  pdf_isDrawing :: bool
  pdf_startPoint :: "Point option"
  pdf_currentBox :: "BoundingBox option"
  pdf_selectedUnit :: Unit
  pdf_boundingBoxes :: "BoundingBox list"
  pdf_pdfDocument :: "PDFDocumentProxy option"
  pdf_currentPage :: nat
  pdf_zoom :: real

text \<open>
  An ordering test on a value that may not be finite: false on \<^verbatim>\<open>NaN\<close>. The values
  tested here are built from mouse positions and are finite.
\<close>

definition js_gt :: "number \<Rightarrow> real \<Rightarrow> bool" where
  "js_gt a b = (case a of None \<Rightarrow> False | Some u \<Rightarrow> u > b)"

definition convertCanvasToPDF ::
  "PDFBboxTool_state \<Rightarrow> number \<Rightarrow> number \<Rightarrow> number \<Rightarrow> number \<Rightarrow> CoordinateConversion option" where
  "convertCanvasToPDF st canvasX canvasY canvasWidth canvasHeight =
     (case pdf_pdfDocument st of
        None \<Rightarrow> None
      | Some doc \<Rightarrow>
          let viewport = getViewport doc (pdf_currentPage st) 1;
              displayViewport = getViewport doc (pdf_currentPage st) (pdf_zoom st);
              scaleX = js_div (Some (dim_width viewport)) (dim_width displayViewport);
              scaleY = js_div (Some (dim_height viewport)) (dim_height displayViewport);
              pdfX = js_mul canvasX scaleX;
              pdfY = js_mul canvasY scaleY;
              pdfWidth = js_mul canvasWidth scaleX;
              pdfHeight = js_mul canvasHeight scaleY
          in Some
               \<lparr> conv_pt = \<lparr> rect_x = map_option round100 pdfX,
                             rect_y = map_option round100 pdfY,
                             rect_width = map_option round100 pdfWidth,
                             rect_height = map_option round100 pdfHeight \<rparr>,
                 conv_px = \<lparr> rect_x = map_option (\<lambda>v. round100 (v / 0.75)) pdfX,
                             rect_y = map_option (\<lambda>v. round100 (v / 0.75)) pdfY,
                             rect_width = map_option (\<lambda>v. round100 (v / 0.75)) pdfWidth,
                             rect_height = map_option (\<lambda>v. round100 (v / 0.75)) pdfHeight \<rparr>,
                 conv_mm = \<lparr> rect_x = map_option (\<lambda>v. round100 (v / 2.834645669)) pdfX,
                             rect_y = map_option (\<lambda>v. round100 (v / 2.834645669)) pdfY,
                             rect_width = map_option (\<lambda>v. round100 (v / 2.834645669)) pdfWidth,
                             rect_height = map_option (\<lambda>v. round100 (v / 2.834645669)) pdfHeight \<rparr> \<rparr>)"

definition PDFBboxTool_handleMouseDown :: "PDFBboxTool_state \<Rightarrow> real \<Rightarrow> real \<Rightarrow> PDFBboxTool_state" where
  "PDFBboxTool_handleMouseDown st canvasX canvasY =
     st \<lparr> pdf_isDrawing := True,
          pdf_startPoint := Some \<lparr> point_x = canvasX, point_y = canvasY \<rparr> \<rparr>"

definition PDFBboxTool_handleMouseMove ::
  "PDFBboxTool_state \<Rightarrow> real \<Rightarrow> real \<Rightarrow> nat \<Rightarrow> PDFBboxTool_state" where
  "PDFBboxTool_handleMouseMove st currentX currentY now =
     (case pdf_startPoint st of
        None \<Rightarrow> st
      | Some start \<Rightarrow>
          if \<not> pdf_isDrawing st then st
          else
            let width = \<bar>currentX - point_x start\<bar>;
                height = \<bar>currentY - point_y start\<bar>;
                boxX = min currentX (point_x start);
                boxY = min currentY (point_y start)
            in st \<lparr> pdf_currentBox :=
                      Some \<lparr> box_id = ''temp-'' @ dec now,
                             box_x = Some boxX,
                             box_y = Some boxY,
                             box_width = Some width,
                             box_height = Some height,
                             box_unit = pdf_selectedUnit st,
                             box_kind = None \<rparr> \<rparr>)"

definition PDFBboxTool_handleMouseUp :: "PDFBboxTool_state \<Rightarrow> nat \<Rightarrow> PDFBboxTool_state" where
  "PDFBboxTool_handleMouseUp st now =
     (case pdf_currentBox st of
        None \<Rightarrow> st
      | Some current \<Rightarrow>
          if \<not> pdf_isDrawing st \<or> pdf_startPoint st = None then st
          else
            let coords = convertCanvasToPDF st (box_x current) (box_y current)
                           (box_width current) (box_height current);
                added =
                  (case coords of
                     None \<Rightarrow> pdf_boundingBoxes st
                   | Some c \<Rightarrow>
                       if js_gt (box_width current) 5 \<and> js_gt (box_height current) 5
                       then pdf_boundingBoxes st
                              @ [\<lparr> box_id = ''bbox-'' @ dec now,
                                   box_x = rect_x (conv_pt c),
                                   box_y = rect_y (conv_pt c),
                                   box_width = rect_width (conv_pt c),
                                   box_height = rect_height (conv_pt c),
                                   box_unit = pdf_selectedUnit st,
                                   box_kind = None \<rparr>]
                       else pdf_boundingBoxes st)
            in st \<lparr> pdf_boundingBoxes := added,
                     pdf_isDrawing := False,
                     pdf_startPoint := None,
                     pdf_currentBox := None \<rparr>)"

text \<open>
  Example states: a letter page (612 by 792 points) in \<open>PDFBboxTool\<close> as it starts, the
  selected unit being the initial \<^verbatim>\<open>'px'\<close> and the zoom 1; and the page image of
  \<open>ImagePDFTool\<close>, shown at a third of its raster size.
\<close>

definition example_document :: PDFDocumentProxy where
  "example_document =
     \<lparr> numPages = 1,
       getViewport = (\<lambda>page scale. \<lparr> dim_width = 612 * scale, dim_height = 792 * scale \<rparr>) \<rparr>"

definition example_pdf_tool :: PDFBboxTool_state where
  "example_pdf_tool =
     \<lparr> pdf_isDrawing = False, pdf_startPoint = None, pdf_currentBox = None,
       pdf_selectedUnit = Px, pdf_boundingBoxes = [], pdf_pdfDocument = Some example_document,
       pdf_currentPage = 1, pdf_zoom = 1 \<rparr>"

definition example_image_tool :: ImagePDFTool_state where
  "example_image_tool =
     \<lparr> img_isDrawing = False, img_startPoint = None, img_currentBox = None,
       img_selectedUnit = Px, img_boundingBoxes = [],
       img_originalDimensions = Some example_dims,
       img_imageRef = Some example_element_third,
       img_imageDataUrl = Some ''data:image/png;base64,'' \<rparr>"

section \<open>utils/tableDetectionUtils.ts: the pixel-scan detector\<close>

datatype TableDetectionMode = TableMode | CellsMode | LinesMode

record TableRegion =
  region_x :: real
  region_y :: real
  region_width :: real
  region_height :: real

record TableCell =
  cell_x :: real
  cell_y :: real
  cell_width :: real
  cell_height :: real
  cell_row :: nat
  cell_col :: nat

text \<open>
  The pixel buffer is the \<^verbatim>\<open>Uint8ClampedArray\<close> of a canvas: four bytes per pixel, row by
  row. Reading past its end yields \<^verbatim>\<open>undefined\<close>, and the average of the three colour
  bytes is then \<^verbatim>\<open>NaN\<close>, which is below no threshold.
\<close>

definition byte_at :: "nat list \<Rightarrow> nat \<Rightarrow> nat option" where
  "byte_at pixelData idx = (if idx < length pixelData then Some (pixelData ! idx) else None)"

definition gray_at :: "nat list \<Rightarrow> nat \<Rightarrow> number" where
  "gray_at pixelData idx =
     (case byte_at pixelData idx of
        None \<Rightarrow> None
      | Some r \<Rightarrow>
          (case byte_at pixelData (idx + 1) of
             None \<Rightarrow> None
           | Some g \<Rightarrow>
               (case byte_at pixelData (idx + 2) of
                  None \<Rightarrow> None
                | Some b \<Rightarrow> Some (real (r + g + b) / 3))))"

definition js_lt :: "number \<Rightarrow> real \<Rightarrow> bool" where
  "js_lt a b = (case a of None \<Rightarrow> False | Some u \<Rightarrow> u < b)"

text \<open>The inner loop of \<open>detectHorizontalLines\<close>, over the columns \<open>x\<close> of the row \<open>y\<close>;
  it returns \<^verbatim>\<open>maxConsecutive\<close>.\<close>

function detectHorizontalLines_row :: "nat list \<Rightarrow> nat \<Rightarrow> nat \<Rightarrow> nat \<Rightarrow> nat \<Rightarrow> nat \<Rightarrow> nat" where
  "detectHorizontalLines_row pixelData width y x consecutiveDarkPixels maxConsecutive =
     (if x < width
      then
        let idx = (y * width + x) * 4;
            gray = gray_at pixelData idx
        in if js_lt gray 128
           then detectHorizontalLines_row pixelData width y (x + 1)
                  (consecutiveDarkPixels + 1) (max maxConsecutive (consecutiveDarkPixels + 1))
           else detectHorizontalLines_row pixelData width y (x + 1) 0 maxConsecutive
      else maxConsecutive)"
  by pat_completeness auto
termination
  by (relation "measure (\<lambda>(pixelData, width, y, x, c, m). width - x)") auto

declare detectHorizontalLines_row.simps [simp del]

text \<open>The outer loop, over the rows \<open>y\<close>; \<open>found\<close> is the array \<^verbatim>\<open>lines\<close>.\<close>

function detectHorizontalLines_rows :: "nat list \<Rightarrow> nat \<Rightarrow> nat \<Rightarrow> real \<Rightarrow> nat \<Rightarrow> real list \<Rightarrow> real list" where
  "detectHorizontalLines_rows pixelData width height minLineLength y found =
     (if y < height
      then
        let maxConsecutive = detectHorizontalLines_row pixelData width y 0 0 0
        in detectHorizontalLines_rows pixelData width height minLineLength (y + 1)
             (if real maxConsecutive \<ge> minLineLength then found @ [real y] else found)
      else found)"
  by pat_completeness auto
termination
  by (relation "measure (\<lambda>(pixelData, width, height, minLineLength, y, found). height - y)") auto

declare detectHorizontalLines_rows.simps [simp del]

definition detectHorizontalLines :: "nat list \<Rightarrow> nat \<Rightarrow> nat \<Rightarrow> real \<Rightarrow> real list" where
  "detectHorizontalLines pixelData width height minLineLength =
     detectHorizontalLines_rows pixelData width height minLineLength 0 []"

text \<open>The inner loop of \<open>detectVerticalLines\<close>, over the rows \<open>y\<close> of the column \<open>x\<close>.\<close>

function detectVerticalLines_col :: "nat list \<Rightarrow> nat \<Rightarrow> nat \<Rightarrow> nat \<Rightarrow> nat \<Rightarrow> nat \<Rightarrow> nat \<Rightarrow> nat" where
  "detectVerticalLines_col pixelData width height x y consecutiveDarkPixels maxConsecutive =
     (if y < height
      then
        let idx = (y * width + x) * 4;
            gray = gray_at pixelData idx
        in if js_lt gray 128
           then detectVerticalLines_col pixelData width height x (y + 1)
                  (consecutiveDarkPixels + 1) (max maxConsecutive (consecutiveDarkPixels + 1))
           else detectVerticalLines_col pixelData width height x (y + 1) 0 maxConsecutive
      else maxConsecutive)"
  by pat_completeness auto
termination
  by (relation "measure (\<lambda>(pixelData, width, height, x, y, c, m). height - y)") auto

declare detectVerticalLines_col.simps [simp del]

function detectVerticalLines_cols :: "nat list \<Rightarrow> nat \<Rightarrow> nat \<Rightarrow> real \<Rightarrow> nat \<Rightarrow> real list \<Rightarrow> real list" where
  "detectVerticalLines_cols pixelData width height minLineLength x found =
     (if x < width
      then
        let maxConsecutive = detectVerticalLines_col pixelData width height x 0 0 0
        in detectVerticalLines_cols pixelData width height minLineLength (x + 1)
             (if real maxConsecutive \<ge> minLineLength then found @ [real x] else found)
      else found)"
  by pat_completeness auto
termination
  by (relation "measure (\<lambda>(pixelData, width, height, minLineLength, x, found). width - x)") auto

declare detectVerticalLines_cols.simps [simp del]

definition detectVerticalLines :: "nat list \<Rightarrow> nat \<Rightarrow> nat \<Rightarrow> real \<Rightarrow> real list" where
  "detectVerticalLines pixelData width height minLineLength =
     detectVerticalLines_cols pixelData width height minLineLength 0 []"

text \<open>The loop of \<open>filterLines\<close> over the sorted positions after the first; \<open>filtered\<close> is
  never empty here.\<close>

fun filterLines_loop :: "real \<Rightarrow> real list \<Rightarrow> real list \<Rightarrow> real list" where
  "filterLines_loop minDistance [] filtered = filtered"
| "filterLines_loop minDistance (l # rest) filtered =
     filterLines_loop minDistance rest
       (if l - last filtered \<ge> minDistance then filtered @ [l] else filtered)"

definition filterLines :: "real list \<Rightarrow> real \<Rightarrow> real \<Rightarrow> real list" where
  "filterLines positions maxDimension minDistance =
     (if length positions = 0 then positions
      else
        (case sort positions of
           [] \<Rightarrow> []
         | first # rest \<Rightarrow> filterLines_loop minDistance rest [first]))"

text \<open>\<open>filterLines\<close> called without its third argument.\<close>

definition filterLines_default :: "real list \<Rightarrow> real \<Rightarrow> real list" where
  "filterLines_default positions maxDimension =
     filterLines positions maxDimension (max 10 (maxDimension * 0.01))"

definition isValidCell :: "real \<Rightarrow> real \<Rightarrow> real \<Rightarrow> real \<Rightarrow> real \<Rightarrow> real \<Rightarrow> bool" where
  "isValidCell x y width height imgWidth imgHeight =
     (if width < 20 \<or> height < 15 then False
      else if width > imgWidth * 0.9 \<or> height > imgHeight * 0.9 then False
      else if x < 0 \<or> y < 0 \<or> x + width > imgWidth \<or> y + height > imgHeight then False
      else
        let aspectRatio = width / height
        in if aspectRatio < 0.1 \<or> aspectRatio > 10 then False else True)"

text \<open>The body of the two nested loops of \<open>createCellsFromLines\<close>: the cell of a row and a
  column, pushed when it is valid. Both indices are in range where it is called.\<close>

definition createCellsFromLines_cell ::
  "real list \<Rightarrow> real list \<Rightarrow> real \<Rightarrow> real \<Rightarrow> nat \<Rightarrow> nat \<Rightarrow> TableCell list" where
  "createCellsFromLines_cell horizontalLines verticalLines imgWidth imgHeight row col =
     (let cellX = verticalLines ! col;
          cellY = horizontalLines ! row;
          cellWidth = verticalLines ! (col + 1) - verticalLines ! col;
          cellHeight = horizontalLines ! (row + 1) - horizontalLines ! row
      in if isValidCell cellX cellY cellWidth cellHeight imgWidth imgHeight
         then [\<lparr> cell_x = cellX, cell_y = cellY, cell_width = cellWidth,
                  cell_height = cellHeight, cell_row = row, cell_col = col \<rparr>]
         else [])"

definition createCellsFromLines :: "real list \<Rightarrow> real list \<Rightarrow> real \<Rightarrow> real \<Rightarrow> TableCell list" where
  "createCellsFromLines horizontalLines verticalLines imgWidth imgHeight =
     (if length horizontalLines < 2 \<or> length verticalLines < 2 then []
      else
        concat (map (\<lambda>row.
          concat (map (\<lambda>col.
            createCellsFromLines_cell horizontalLines verticalLines imgWidth imgHeight row col)
            [0 ..< length verticalLines - 1]))
          [0 ..< length horizontalLines - 1]))"

text \<open>
  The flood fill of \<open>findTableRegion\<close>. The stack is a list whose head is the top (the end
  of the array); the keys \<^verbatim>\<open>`${x},${y}`\<close> of the two sets are the pairs \<open>(x, y)\<close>. The loop
  returns the set \<open>visited\<close>, which the caller shares, and the four bounds.
\<close>

function findTableRegion_loop ::
  "nat list \<Rightarrow> nat \<Rightarrow> nat \<Rightarrow> (int \<times> int) list \<Rightarrow> (int \<times> int) set \<Rightarrow> (int \<times> int) set
   \<Rightarrow> int \<Rightarrow> int \<Rightarrow> int \<Rightarrow> int \<Rightarrow> (int \<times> int) set \<times> int \<times> int \<times> int \<times> int" where
  "findTableRegion_loop pixelData width height stack regionPixels visited minX maxX minY maxY =
     (case stack of
        [] \<Rightarrow> (visited, minX, maxX, minY, maxY)
      | pos # rest \<Rightarrow>
          if \<not> card regionPixels < 10000 then (visited, minX, maxX, minY, maxY)
          else if pos \<in> visited \<or> pos \<in> regionPixels
          then findTableRegion_loop pixelData width height rest regionPixels visited
                 minX maxX minY maxY
          else if fst pos < 0 \<or> fst pos \<ge> int width \<or> snd pos < 0 \<or> snd pos \<ge> int height
          then findTableRegion_loop pixelData width height rest regionPixels visited
                 minX maxX minY maxY
          else if js_lt (gray_at pixelData (nat ((snd pos * int width + fst pos) * 4))) 150
          then findTableRegion_loop pixelData width height
                 ((fst pos, snd pos - 1) # (fst pos, snd pos + 1)
                    # (fst pos - 1, snd pos) # (fst pos + 1, snd pos) # rest)
                 (insert pos regionPixels) (insert pos visited)
                 (min minX (fst pos)) (max maxX (fst pos))
                 (min minY (snd pos)) (max maxY (snd pos))
          else findTableRegion_loop pixelData width height rest regionPixels visited
                 minX maxX minY maxY)"
  by pat_completeness auto
termination
proof (relation "inv_image (less_than <*lex*> less_than)
    (\<lambda>(pixelData, width, height, stack, regionPixels, visited, minX, maxX, minY, maxY).
       (card (({0 ..< int width} \<times> {0 ..< int height}) - regionPixels), length stack))",
    goal_cases)
  case 1
  show ?case by (intro wf_inv_image wf_lex_prod wf_less_than)
next
  case (2 pixelData width height stack regionPixels visited minX maxX minY maxY pos rest)
  then show ?case by simp
next
  case (3 pixelData width height stack regionPixels visited minX maxX minY maxY pos rest)
  then show ?case by simp
next
  case (4 pixelData width height stack regionPixels visited minX maxX minY maxY pos rest)
  let ?B = "{0 ..< int width} \<times> {0 ..< int height}"
  from 4 have "pos \<in> ?B - regionPixels"
    by (cases pos) auto
  moreover have "finite (?B - regionPixels)" by simp
  ultimately have "card (?B - insert pos regionPixels) < card (?B - regionPixels)"
    by (metis Diff_insert card_Diff1_less)
  then show ?case by simp
next
  case (5 pixelData width height stack regionPixels visited minX maxX minY maxY pos rest)
  then show ?case by simp
qed

declare findTableRegion_loop.simps [simp del]

definition findTableRegion ::
  "nat list \<Rightarrow> nat \<Rightarrow> nat \<Rightarrow> int \<Rightarrow> int \<Rightarrow> (int \<times> int) set
   \<Rightarrow> TableRegion option \<times> (int \<times> int) set" where
  "findTableRegion pixelData width height startX startY visited =
     (case findTableRegion_loop pixelData width height [(startX, startY)] {} visited
             startX startX startY startY of
        (visited', minX, maxX, minY, maxY) \<Rightarrow>
          let regionWidth = maxX - minX;
              regionHeight = maxY - minY
          in if regionWidth < 100 \<or> regionHeight < 50 then (None, visited')
             else if real_of_int regionWidth > real width * 0.9
                     \<or> real_of_int regionHeight > real height * 0.9 then (None, visited')
             else (Some \<lparr> region_x = real_of_int minX, region_y = real_of_int minY,
                           region_width = real_of_int regionWidth,
                           region_height = real_of_int regionHeight \<rparr>, visited'))"

text \<open>The two loops of \<open>detectTableRegions\<close> over the seed points, 20 pixels apart.\<close>

function detectTableRegions_xs ::
  "nat list \<Rightarrow> nat \<Rightarrow> nat \<Rightarrow> int \<Rightarrow> int \<Rightarrow> TableRegion list \<Rightarrow> (int \<times> int) set
   \<Rightarrow> TableRegion list \<times> (int \<times> int) set" where
  "detectTableRegions_xs pixelData width height y x regions visited =
     (if x < int width - 50
      then
        if (x, y) \<in> visited
        then detectTableRegions_xs pixelData width height y (x + 20) regions visited
        else
          (case findTableRegion pixelData width height x y visited of
             (region, visited') \<Rightarrow>
               detectTableRegions_xs pixelData width height y (x + 20)
                 (case region of None \<Rightarrow> regions | Some r \<Rightarrow> regions @ [r]) visited')
      else (regions, visited))"
  by pat_completeness auto
termination
  by (relation "measure (\<lambda>(pixelData, width, height, y, x, regions, visited).
                  nat (int width - 50 - x))") auto

declare detectTableRegions_xs.simps [simp del]

function detectTableRegions_ys ::
  "nat list \<Rightarrow> nat \<Rightarrow> nat \<Rightarrow> int \<Rightarrow> TableRegion list \<Rightarrow> (int \<times> int) set \<Rightarrow> TableRegion list" where
  "detectTableRegions_ys pixelData width height y regions visited =
     (if y < int height - 50
      then
        (case detectTableRegions_xs pixelData width height y 0 regions visited of
           (regions', visited') \<Rightarrow>
             detectTableRegions_ys pixelData width height (y + 20) regions' visited')
      else regions)"
  by pat_completeness auto
termination
  by (relation "measure (\<lambda>(pixelData, width, height, y, regions, visited).
                  nat (int height - 50 - y))") auto

declare detectTableRegions_ys.simps [simp del]

definition detectTableRegions :: "nat list \<Rightarrow> nat \<Rightarrow> nat \<Rightarrow> TableRegion list" where
  "detectTableRegions pixelData width height =
     detectTableRegions_ys pixelData width height 0 [] {}"

section \<open>hooks/useTableDetection.ts\<close>

text \<open>An exception: an \<^verbatim>\<open>Error\<close> thrown by the hook, or a \<^verbatim>\<open>DOMException\<close> thrown by the
  canvas; each carries its message.\<close>

datatype js_error = Error string | DOMException string

definition error_message :: "js_error \<Rightarrow> string" where
  "error_message e = (case e of Error m \<Rightarrow> m | DOMException m \<Rightarrow> m)"

text \<open>The two texts that the hook stores in \<^verbatim>\<open>cvError\<close>: that every source of the engine
  failed to load, and that a detection failed, with the message of the error.\<close>

datatype cv_error = AllSourcesFailed | DetectionFailed string

record CvRect =
  cvr_x :: nat
  cvr_y :: nat
  cvr_width :: nat
  cvr_height :: nat

text \<open>
  The morphological engine is a library outside the repository. The model takes what it
  computes on the page image as given: the size of the matrix it reads and the bounding
  rectangles of the contours it extracts from the mask of each mode.
\<close>

record OpenCV =
  cv_rows :: nat
  cv_cols :: nat
  cv_tableContours :: "CvRect list"
  cv_hContours :: "CvRect list"
  cv_vContours :: "CvRect list"
  cv_cellContours :: "CvRect list"

record useTableDetection_state =
  td_imageDataUrl :: "string option"
  td_mode :: TableDetectionMode
  td_isProcessing :: bool
  td_cvLoaded :: bool
  td_cvError :: "cv_error option"

text \<open>What the hook reads of the page: the first \<^verbatim>\<open>img\<close> element, whether a canvas gives
  a 2D context, and \<^verbatim>\<open>window.cv\<close>.\<close>

record Browser =
  doc_img :: "HTMLImageElement option"
  doc_canvas2d :: bool
  window_cv :: "OpenCV option"

definition tableBox :: "string \<Rightarrow> CoordinateConversion \<Rightarrow> BoundingBox" where
  "tableBox ident coords =
     \<lparr> box_id = ident,
       box_x = rect_x (conv_pt coords),
       box_y = rect_y (conv_pt coords),
       box_width = rect_width (conv_pt coords),
       box_height = rect_height (conv_pt coords),
       box_unit = Pt,
       box_kind = Some Table \<rparr>"

definition detectTablesWithOpenCV ::
  "useTableDetection_state \<Rightarrow> Browser \<Rightarrow> OpenCV \<Rightarrow> nat \<Rightarrow> js_error + BoundingBox list" where
  "detectTablesWithOpenCV st browser cv now =
     (if falsy (td_imageDataUrl st) then Inl (Error ''No image available for table detection'')
      else
        (case doc_img browser of
           None \<Rightarrow> Inl (Error ''Image not fully loaded'')
         | Some img \<Rightarrow>
             if \<not> complete img \<or> naturalWidth img = 0 then Inl (Error ''Image not fully loaded'')
             else if cv_rows cv = 0 \<or> cv_cols cv = 0 then Inl (Error ''Invalid image dimensions'')
             else if td_mode st = TableMode
             then Inr (concat (map (\<lambda>(i, rect).
                    let minWidth = max 100 (real (cv_cols cv) * 0.1);
                        minHeight = max 50 (real (cv_rows cv) * 0.05)
                    in if real (cvr_width rect) \<ge> minWidth
                          \<and> real (cvr_height rect) \<ge> minHeight
                          \<and> real (cvr_width rect) \<le> real (cv_cols cv) * 0.95
                          \<and> real (cvr_height rect) \<le> real (cv_rows cv) * 0.95
                       then [tableBox (''table-region-'' @ dec now @ ''-'' @ dec i)
                               (imageCoordsToPDFPoints (Some (real (cvr_x rect)))
                                  (Some (real (cvr_y rect))) (Some (real (cvr_width rect)))
                                  (Some (real (cvr_height rect))))]
                       else [])
                    (enumerate 0 (cv_tableContours cv))))
             else if td_mode st = LinesMode
             then Inr (concat (map (\<lambda>(i, rect).
                      if real (cvr_width rect) > real (cv_cols cv) * 0.1
                         \<or> cvr_width rect * cvr_height rect > 1000
                      then [tableBox (''hline-'' @ dec now @ ''-'' @ dec i)
                              (imageCoordsToPDFPoints (Some (real (cvr_x rect)))
                                 (Some (real (cvr_y rect))) (Some (real (cvr_width rect)))
                                 (Some (max 1 (real (cvr_height rect)))))]
                      else [])
                    (enumerate 0 (cv_hContours cv)))
                  @ concat (map (\<lambda>(i, rect).
                      if real (cvr_height rect) > real (cv_rows cv) * 0.1
                         \<or> cvr_width rect * cvr_height rect > 1000
                      then [tableBox (''vline-'' @ dec now @ ''-'' @ dec i)
                              (imageCoordsToPDFPoints (Some (real (cvr_x rect)))
                                 (Some (real (cvr_y rect))) (Some (max 1 (real (cvr_width rect))))
                                 (Some (real (cvr_height rect))))]
                      else [])
                    (enumerate 0 (cv_vContours cv))))
             else Inr (concat (map (\<lambda>(i, rect).
                    if cvr_width rect > 15 \<and> cvr_height rect > 15
                       \<and> real (cvr_width rect) < real (cv_cols cv) * 0.5
                       \<and> real (cvr_height rect) < real (cv_rows cv) * 0.5
                    then [tableBox (''cell-contour-'' @ dec now @ ''-'' @ dec i)
                            (imageCoordsToPDFPoints (Some (real (cvr_x rect)))
                               (Some (real (cvr_y rect))) (Some (real (cvr_width rect)))
                               (Some (real (cvr_height rect))))]
                    else [])
                  (enumerate 0 (cv_cellContours cv))))))"

definition cellBox :: "nat \<Rightarrow> TableCell \<Rightarrow> BoundingBox" where
  "cellBox now cell =
     tableBox (''cell-'' @ dec now @ ''-'' @ dec (cell_row cell) @ ''-'' @ dec (cell_col cell))
       (imageCoordsToPDFPoints (Some (cell_x cell)) (Some (cell_y cell))
          (Some (cell_width cell)) (Some (cell_height cell)))"

definition regionBox :: "nat \<Rightarrow> nat \<times> TableRegion \<Rightarrow> BoundingBox" where
  "regionBox now entry =
     tableBox (''table-region-'' @ dec now @ ''-'' @ dec (fst entry))
       (imageCoordsToPDFPoints (Some (region_x (snd entry))) (Some (region_y (snd entry)))
          (Some (region_width (snd entry))) (Some (region_height (snd entry))))"

text \<open>
  The canvas takes the natural size of the image; \<^verbatim>\<open>getImageData\<close> throws an
  \<^verbatim>\<open>IndexSizeError\<close> when the width or the height it is asked for is zero.
\<close>

definition detectTablesFallback ::
  "useTableDetection_state \<Rightarrow> Browser \<Rightarrow> nat \<Rightarrow> js_error + BoundingBox list" where
  "detectTablesFallback st browser now =
     (if falsy (td_imageDataUrl st) then Inl (Error ''No image available for table detection'')
      else
        (case doc_img browser of
           None \<Rightarrow> Inl (Error ''Image element not found'')
         | Some img \<Rightarrow>
             if \<not> doc_canvas2d browser then Inl (Error ''Canvas context not available'')
             else if naturalWidth img = 0 \<or> naturalHeight img = 0
             then Inl (DOMException ''IndexSizeError'')
             else
               let width = naturalWidth img;
                   height = naturalHeight img;
                   pixelData = imagePixels img;
                   horizontalLines = detectHorizontalLines pixelData width height (real width * 0.3);
                   verticalLines = detectVerticalLines pixelData width height (real height * 0.3);
                   tableBoxes =
                     (if length horizontalLines \<ge> 2 \<and> length verticalLines \<ge> 2
                      then
                        let filteredHLines = filterLines_default horizontalLines (real height);
                            filteredVLines = filterLines_default verticalLines (real width)
                        in if td_mode st = CellsMode
                           then map (cellBox now)
                                  (createCellsFromLines filteredHLines filteredVLines
                                     (real width) (real height))
                           else []
                      else [])
               in if td_mode st = TableMode \<or> length tableBoxes = 0
                  then Inr (tableBoxes
                            @ map (regionBox now)
                                (enumerate 0 (detectTableRegions pixelData width height)))
                  else Inr tableBoxes))"

text \<open>\<open>detectTables\<close> returns the boxes or rethrows the error, and leaves the state with
  \<^verbatim>\<open>isProcessing\<close> false and, after an error, with \<^verbatim>\<open>cvError\<close> set.\<close>

definition detectTables ::
  "useTableDetection_state \<Rightarrow> Browser \<Rightarrow> nat
   \<Rightarrow> (js_error + BoundingBox list) \<times> useTableDetection_state" where
  "detectTables st browser now =
     (let attempt =
            (case window_cv browser of
               None \<Rightarrow> detectTablesFallback st browser now
             | Some cv \<Rightarrow>
                 if \<not> td_cvLoaded st \<or> td_cvError st \<noteq> None
                 then detectTablesFallback st browser now
                 else detectTablesWithOpenCV st browser cv now)
      in case attempt of
           Inl err \<Rightarrow>
             (Inl err, st \<lparr> td_cvError := Some (DetectionFailed (error_message err)),
                            td_isProcessing := False \<rparr>)
         | Inr boxes \<Rightarrow> (Inr boxes, st \<lparr> td_isProcessing := False \<rparr>))"

section \<open>Dark runs and synthetic images\<close>

text \<open>
  The vocabulary of the claims about the pixel-scan detector. A pixel is dark when the
  average of its three colour bytes is below 128. A row has a dark run of a length when
  some contiguous stretch of its pixels, at least that long, is dark; likewise a column.
\<close>

definition isDark :: "nat list \<Rightarrow> nat \<Rightarrow> nat \<Rightarrow> nat \<Rightarrow> bool" where
  "isDark pixelData width x y = js_lt (gray_at pixelData ((y * width + x) * 4)) 128"

definition hasDarkRun :: "(nat \<Rightarrow> bool) \<Rightarrow> nat \<Rightarrow> real \<Rightarrow> bool" where
  "hasDarkRun dark limit minLength =
     (\<exists>a \<in> {.. limit}. \<exists>n \<in> {.. limit}.
        minLength \<le> real n \<and> a + n \<le> limit \<and> (\<forall>i \<in> {..< n}. dark (a + i)))"

definition rowHasDarkRun :: "nat list \<Rightarrow> nat \<Rightarrow> real \<Rightarrow> nat \<Rightarrow> bool" where
  "rowHasDarkRun pixelData width minLength y =
     hasDarkRun (\<lambda>x. isDark pixelData width x y) width minLength"

definition colHasDarkRun :: "nat list \<Rightarrow> nat \<Rightarrow> nat \<Rightarrow> real \<Rightarrow> nat \<Rightarrow> bool" where
  "colHasDarkRun pixelData width height minLength x =
     hasDarkRun (\<lambda>y. isDark pixelData width x y) height minLength"

text \<open>
  The scan that the inner loops of \<open>detectHorizontalLines\<close> and \<open>detectVerticalLines\<close>
  share, over the positions \<open>i\<close> of any line of pixels: the two loops are this scan along
  a row and along a column.
\<close>

function scanRun :: "(nat \<Rightarrow> bool) \<Rightarrow> nat \<Rightarrow> nat \<Rightarrow> nat \<Rightarrow> nat \<Rightarrow> nat" where
  "scanRun dark limit i consecutiveDarkPixels maxConsecutive =
     (if i < limit
      then
        if dark i
        then scanRun dark limit (i + 1) (consecutiveDarkPixels + 1)
               (max maxConsecutive (consecutiveDarkPixels + 1))
        else scanRun dark limit (i + 1) 0 maxConsecutive
      else maxConsecutive)"
  by pat_completeness auto
termination
  by (relation "measure (\<lambda>(dark, limit, i, c, m). limit - i)") auto

declare scanRun.simps [simp del]

text \<open>
  A synthetic image: black on the rows in \<open>isRow\<close> and the columns in \<open>isCol\<close>, white
  elsewhere, opaque everywhere.
\<close>

definition grid_image :: "nat \<Rightarrow> nat \<Rightarrow> (nat \<Rightarrow> bool) \<Rightarrow> (nat \<Rightarrow> bool) \<Rightarrow> nat list" where
  "grid_image width height isRow isCol =
     map (\<lambda>idx. if idx mod 4 = 3 then 255
                 else if isRow ((idx div 4) div width) \<or> isCol ((idx div 4) mod width) then 0
                 else 255)
       [0 ..< 4 * width * height]"

text \<open>The three bands of thickness \<open>t\<close> that start at \<open>a\<close>, \<open>a + s\<close> and \<open>a + 2 * s\<close>.\<close>

definition in_bands :: "nat \<Rightarrow> nat \<Rightarrow> nat \<Rightarrow> nat \<Rightarrow> bool" where
  "in_bands a s t i =
     ((a \<le> i \<and> i < a + t) \<or> (a + s \<le> i \<and> i < a + s + t) \<or> (a + 2 * s \<le> i \<and> i < a + 2 * s + t))"

text \<open>Example pages: a square image with one-pixel rules at 0, \<open>s\<close> and \<open>2 * s\<close> on both
  axes, in a browser without the morphological engine.\<close>

definition example_grid_element :: "nat \<Rightarrow> HTMLImageElement" where
  "example_grid_element s =
     \<lparr> clientWidth = real (2 * s + 1), clientHeight = real (2 * s + 1),
       naturalWidth = 2 * s + 1, naturalHeight = 2 * s + 1, complete = True,
       imagePixels = grid_image (2 * s + 1) (2 * s + 1) (in_bands 0 s 1) (in_bands 0 s 1) \<rparr>"

definition example_browser :: "nat \<Rightarrow> Browser" where
  "example_browser s =
     \<lparr> doc_img = Some (example_grid_element s), doc_canvas2d = True, window_cv = None \<rparr>"

text \<open>The same page where no \<^verbatim>\<open>img\<close> element is found, and where the canvas gives no
  2D context.\<close>

definition example_browser_no_element :: Browser where
  "example_browser_no_element = \<lparr> doc_img = None, doc_canvas2d = True, window_cv = None \<rparr>"

definition example_browser_no_context :: Browser where
  "example_browser_no_context =
     \<lparr> doc_img = Some (example_grid_element 15), doc_canvas2d = False, window_cv = None \<rparr>"

definition example_detection :: "string option \<Rightarrow> TableDetectionMode \<Rightarrow> useTableDetection_state" where
  "example_detection url m =
     \<lparr> td_imageDataUrl = url, td_mode = m, td_isProcessing = False, td_cvLoaded = False,
       td_cvError = None \<rparr>"

section \<open>Unit conversion: results\<close>

lemma Math_round_eq_half_away:
  assumes "0 \<le> r \<or> r + 1 / 2 \<notin> \<int>"
  shows "Math_round r = round_half_away r"
proof (cases "0 \<le> r")
  case True
  then show ?thesis
    by (cases "r = 0") (simp_all add: Math_round_def round_half_away_def)
next
  case False
  with assms have nint: "r + 1 / 2 \<notin> \<int>" by simp
  define n where "n = \<lfloor>r + 1 / 2\<rfloor>"
  have "r + 1 / 2 \<noteq> of_int n"
    using nint Ints_of_int [of n, where 'a = real] by metis
  moreover have "of_int n \<le> r + 1 / 2" and "r + 1 / 2 < of_int n + 1"
    unfolding n_def by linarith+
  ultimately have "of_int (- n) \<le> - r + 1 / 2" and "- r + 1 / 2 < of_int (- n) + 1"
    by simp_all
  then have "\<lfloor>- r + 1 / 2\<rfloor> = - n" by (rule floor_unique)
  moreover have "\<bar>r\<bar> = - r" using False by simp
  ultimately have "\<lfloor>\<bar>r\<bar> + 1 / 2\<rfloor> = - \<lfloor>r + 1 / 2\<rfloor>"
    by (simp only: n_def)
  moreover have "sgn r = -1" using False by simp
  ultimately show ?thesis
    by (simp add: Math_round_def round_half_away_def)
qed

lemma BoundingBoxesList_convertToUnits_transform:
  "u1 \<noteq> u2 \<Longrightarrow>
   BoundingBoxesList_convertToUnits v u1 u2 = Math_round (spec_transform v u1 u2 * 100) / 100"
  by (cases u1; cases u2)
     (simp_all add: BoundingBoxesList_convertToUnits_def spec_transform_def
        spec_toPoint_def spec_fromPoint_def Let_def)

lemma spec_transform_nonneg: "0 \<le> v \<Longrightarrow> 0 \<le> spec_transform v u1 u2"
  by (cases u1; cases u2)
     (simp_all add: spec_transform_def spec_toPoint_def spec_fromPoint_def)

text \<open>The exported conversion is the transform itself: it does not round.\<close>

lemma convertToUnits_transform:
  "u1 \<noteq> u2 \<Longrightarrow> convertToUnits v u1 u2 = spec_transform v u1 u2"
  by (cases u1; cases u2)
     (simp_all add: convertToUnits_def spec_transform_def spec_toPoint_def spec_fromPoint_def
        pixelsToPoints_def millimetersToPoints_def pointsToPixels_def pointsToMillimeters_def
        Let_def)

text \<open>
  Claim C2, as the code has it. Between two distinct units the conversion behind the
  displayed values returns the full from-point-to transform rounded to 2 decimal places by
  \<^verbatim>\<open>Math.round\<close>: to the nearest hundredth, a tie going to the larger one. That is the
  rounding with ties away from zero whenever the value is not negative, and more generally
  whenever the transform is not a tie.
\<close>

theorem C2_display_conversion_rounds:
  assumes "u1 \<noteq> u2"
  shows "BoundingBoxesList_convertToUnits v u1 u2
           = of_int \<lfloor>spec_transform v u1 u2 * 100 + 1 / 2\<rfloor> / 100
         \<and> \<bar>BoundingBoxesList_convertToUnits v u1 u2 - spec_transform v u1 u2\<bar> \<le> 1 / 200
         \<and> (0 \<le> v \<or> spec_transform v u1 u2 * 100 + 1 / 2 \<notin> \<int>
              \<longrightarrow> BoundingBoxesList_convertToUnits v u1 u2 = spec_convert v u1 u2)"
proof (intro conjI impI)
  let ?t = "spec_transform v u1 u2"
  show eq: "BoundingBoxesList_convertToUnits v u1 u2 = of_int \<lfloor>?t * 100 + 1 / 2\<rfloor> / 100"
    using assms by (simp add: BoundingBoxesList_convertToUnits_transform Math_round_def)
  have "\<bar>of_int \<lfloor>?t * 100 + 1 / 2\<rfloor> - ?t * 100\<bar> \<le> 1 / 2" by linarith
  then have "\<bar>of_int \<lfloor>?t * 100 + 1 / 2\<rfloor> / 100 - ?t\<bar> \<le> 1 / 200" by (simp add: field_simps)
  then show "\<bar>BoundingBoxesList_convertToUnits v u1 u2 - ?t\<bar> \<le> 1 / 200"
    by (simp only: eq)
  assume "0 \<le> v \<or> ?t * 100 + 1 / 2 \<notin> \<int>"
  then have "0 \<le> ?t * 100 \<or> ?t * 100 + 1 / 2 \<notin> \<int>"
    using spec_transform_nonneg [of v u1 u2] by auto
  then have "Math_round (?t * 100) = round_half_away (?t * 100)"
    by (rule Math_round_eq_half_away)
  then show "BoundingBoxesList_convertToUnits v u1 u2 = spec_convert v u1 u2"
    using assms by (simp add: BoundingBoxesList_convertToUnits_transform spec_convert_def)
qed

theorem C2_display_conversion_rounds_witness:
  "Pt \<noteq> Mm
   \<and> BoundingBoxesList_convertToUnits 1 Pt Mm = 35 / 100
   \<and> BoundingBoxesList_convertToUnits 1 Pt Mm = spec_convert 1 Pt Mm"
  using C2_display_conversion_rounds [of Pt Mm 1]
  by (simp add: spec_transform_def spec_toPoint_def spec_fromPoint_def)

text \<open>
  Claim C2, as stated, fails. The exported \<open>convertToUnits\<close> does not round: one point is
  returned as 0.35277... millimetres, not 0.35. The conversion behind the displayed values
  rounds a negative tie towards zero: -0.09375 pt is -0.125 px, shown as -0.12, where ties
  away from zero give -0.13.
\<close>

theorem C2_counterexample:
  "convertToUnits 1 Pt Mm \<noteq> spec_convert 1 Pt Mm
   \<and> BoundingBoxesList_convertToUnits (- 0.09375) Pt Px = - 0.12
   \<and> spec_convert (- 0.09375) Pt Px = - 0.13"
  by (simp add: convertToUnits_def pointsToMillimeters_def spec_convert_def
      spec_transform_def spec_toPoint_def spec_fromPoint_def round_half_away_def
      BoundingBoxesList_convertToUnits_def Math_round_def)

text \<open>
  Claim C3. Converting a value from a unit to the same unit returns the value itself, with
  no rounding: the conversion returns before any arithmetic. It holds for the exported
  conversion and for the one behind the displayed values.
\<close>

theorem C3_convert_same_unit_identity:
  "convertToUnits v u u = v \<and> BoundingBoxesList_convertToUnits v u u = v"
  by (simp add: convertToUnits_def BoundingBoxesList_convertToUnits_def)

section \<open>The bounding box store: results\<close>

text \<open>
  Claim C7, as the code has it. \<open>update\<close> keeps the length and the order of the store;
  a box with another id is unchanged; in a box with the given id every field the partial
  names takes the partial's value and every field it does not name is unchanged. The id
  is a field like the others: it is unchanged when the partial does not name it.
\<close>

theorem C7_update_merges_and_frames:
  "length (updateBoundingBox i u prev) = length prev
   \<and> (\<forall>k < length prev.
        (box_id (prev ! k) \<noteq> i \<longrightarrow> updateBoundingBox i u prev ! k = prev ! k)
      \<and> (box_id (prev ! k) = i \<longrightarrow>
           box_id (updateBoundingBox i u prev ! k) = (case upd_id u of None \<Rightarrow> i | Some v \<Rightarrow> v)
         \<and> box_x (updateBoundingBox i u prev ! k)
              = (case upd_x u of None \<Rightarrow> box_x (prev ! k) | Some v \<Rightarrow> v)
         \<and> box_y (updateBoundingBox i u prev ! k)
              = (case upd_y u of None \<Rightarrow> box_y (prev ! k) | Some v \<Rightarrow> v)
         \<and> box_width (updateBoundingBox i u prev ! k)
              = (case upd_width u of None \<Rightarrow> box_width (prev ! k) | Some v \<Rightarrow> v)
         \<and> box_height (updateBoundingBox i u prev ! k)
              = (case upd_height u of None \<Rightarrow> box_height (prev ! k) | Some v \<Rightarrow> v)
         \<and> box_unit (updateBoundingBox i u prev ! k)
              = (case upd_unit u of None \<Rightarrow> box_unit (prev ! k) | Some v \<Rightarrow> v)
         \<and> box_kind (updateBoundingBox i u prev ! k)
              = (case upd_kind u of None \<Rightarrow> box_kind (prev ! k) | Some v \<Rightarrow> v)))"
  by (simp add: updateBoundingBox_def spread_def cong: option.case_cong)

theorem C7_update_merges_and_frames_witness:
  "length (updateBoundingBox ''a'' example_move [example_other_box, example_box]) = 2
   \<and> updateBoundingBox ''a'' example_move [example_other_box, example_box] ! 0 = example_other_box
   \<and> box_id (updateBoundingBox ''a'' example_move [example_other_box, example_box] ! 1) = ''a''
   \<and> box_x (updateBoundingBox ''a'' example_move [example_other_box, example_box] ! 1) = Some 9
   \<and> box_y (updateBoundingBox ''a'' example_move [example_other_box, example_box] ! 1) = Some 2"
proof -
  let ?prev = "[example_other_box, example_box]"
  note C = C7_update_merges_and_frames [of "''a''" example_move ?prev]
  have k0: "0 < length ?prev \<and> box_id (?prev ! 0) \<noteq> ''a''"
    by (simp add: example_other_box_def)
  have k1: "1 < length ?prev \<and> box_id (?prev ! 1) = ''a''"
    by (simp add: example_box_def)
  from C have "length (updateBoundingBox ''a'' example_move ?prev) = 2" by simp
  moreover from C k0 have "updateBoundingBox ''a'' example_move ?prev ! 0 = example_other_box"
    by simp
  moreover from C k1 have "box_id (updateBoundingBox ''a'' example_move ?prev ! 1) = ''a''
      \<and> box_x (updateBoundingBox ''a'' example_move ?prev ! 1) = Some 9
      \<and> box_y (updateBoundingBox ''a'' example_move ?prev ! 1) = Some 2"
    by (simp add: example_move_def example_box_def)
  ultimately show ?thesis by simp
qed

text \<open>
  Claim C7, as stated, fails: the partial may name the id, and the spread then overwrites
  it. Updating the box \<open>a\<close> with the partial \<open>{id: z}\<close> leaves a box whose id is \<open>z\<close>.
\<close>

theorem C7_counterexample:
  "box_id (updateBoundingBox ''a'' example_rename [example_box] ! 0) \<noteq> box_id ([example_box] ! 0)"
  by (simp add: updateBoundingBox_def spread_def example_rename_def example_box_def)

section \<open>Coordinate spaces: results\<close>

lemma round100_close: "\<bar>round100 v - v\<bar> \<le> 1 / 200"
proof -
  have "\<bar>of_int \<lfloor>v * 100 + 1 / 2\<rfloor> - v * 100\<bar> \<le> 1 / 2" by linarith
  then show ?thesis by (simp add: round100_def Math_round_def field_simps)
qed

text \<open>
  Claim C6. The display-to-raster conversion returns \<^verbatim>\<open>null\<close> exactly when the raster
  dimensions or the image element are missing. When both are known it returns a rectangle,
  each field the display value times the ratio of the raster dimension to the element's
  dimension on that axis; the ratio, and with it the field, is not a finite number when the
  element's dimension is zero. The function has no other outcome.
\<close>

theorem C6_displayToImageCoords_null_or_scaled:
  "(displayToImageCoords dx dy dw dh od el = None \<longleftrightarrow> od = None \<or> el = None)
   \<and> (\<forall>dims element. od = Some dims \<and> el = Some element \<longrightarrow>
        displayToImageCoords dx dy dw dh od el =
          Some \<lparr> rect_x = (if clientWidth element = 0 then None
                            else Some (dx * (dim_width dims / clientWidth element))),
                 rect_y = (if clientHeight element = 0 then None
                            else Some (dy * (dim_height dims / clientHeight element))),
                 rect_width = (if clientWidth element = 0 then None
                            else Some (dw * (dim_width dims / clientWidth element))),
                 rect_height = (if clientHeight element = 0 then None
                            else Some (dh * (dim_height dims / clientHeight element))) \<rparr>)"
  by (simp add: displayToImageCoords_def js_div_def js_mul_def Let_def split: option.splits)

theorem C6_displayToImageCoords_null_or_scaled_witness:
  "displayToImageCoords 10 20 30 40 (Some example_dims) (Some example_element_third)
     = Some \<lparr> rect_x = Some 30, rect_y = Some 60, rect_width = Some 90, rect_height = Some 120 \<rparr>
   \<and> displayToImageCoords 10 20 30 40 None (Some example_element_third) = None"
proof -
  have "displayToImageCoords 10 20 30 40 (Some example_dims) (Some example_element_third)
     = Some \<lparr> rect_x = Some 30, rect_y = Some 60, rect_width = Some 90, rect_height = Some 120 \<rparr>"
    using C6_displayToImageCoords_null_or_scaled
      [of 10 20 30 40 "Some example_dims" "Some example_element_third"]
    by (simp add: example_dims_def example_element_third_def)
  moreover have "displayToImageCoords 10 20 30 40 None (Some example_element_third) = None"
    using C6_displayToImageCoords_null_or_scaled [of 10 20 30 40 None "Some example_element_third"]
    by simp
  ultimately show ?thesis by simp
qed

lemma roundtrip_field:
  assumes "d \<noteq> 0"
  shows "\<exists>v'. js_mul (js_mul (map_option round100 (js_div (Some v) (300 / 72))) (Some (300 / 72)))
                  (js_div (Some d) d) = Some v'
              \<and> \<bar>v' - v\<bar> \<le> 1 / 48"
proof -
  let ?p = "round100 (v / (300 / 72))"
  have "\<bar>?p - v / (300 / 72)\<bar> \<le> 1 / 200" by (rule round100_close)
  then have "\<bar>?p * (300 / 72) - v\<bar> \<le> 1 / 48" by (simp add: field_simps abs_le_iff)
  moreover have "js_mul (js_mul (map_option round100 (js_div (Some v) (300 / 72))) (Some (300 / 72)))
                  (js_div (Some d) d) = Some (?p * (300 / 72))"
    using assms by (simp add: js_mul_def js_div_def)
  ultimately show ?thesis by blast
qed

text \<open>
  Claim C5. A raster rectangle taken to points by \<open>imageCoordsToPDFPoints\<close> and back by
  \<open>pdfPointsToDisplayCoords\<close>, the image element being shown at the raster's own
  dimensions, comes back as a rectangle of finite fields, each within 1/48 of a pixel of
  the original: the half hundredth of a point that rounding the point value can lose,
  times the 300/72 pixels of a point.
\<close>

theorem C5_raster_point_display_roundtrip:
  assumes "clientWidth element = dim_width dims" and "clientHeight element = dim_height dims"
    and "dim_width dims \<noteq> 0" and "dim_height dims \<noteq> 0"
  shows "\<exists>x' y' w' h'.
           pdfPointsToDisplayCoords
             (rect_x (conv_pt (imageCoordsToPDFPoints (Some x) (Some y) (Some w) (Some h))))
             (rect_y (conv_pt (imageCoordsToPDFPoints (Some x) (Some y) (Some w) (Some h))))
             (rect_width (conv_pt (imageCoordsToPDFPoints (Some x) (Some y) (Some w) (Some h))))
             (rect_height (conv_pt (imageCoordsToPDFPoints (Some x) (Some y) (Some w) (Some h))))
             (Some dims) (Some element)
           = Some \<lparr> rect_x = Some x', rect_y = Some y', rect_width = Some w', rect_height = Some h' \<rparr>
         \<and> \<bar>x' - x\<bar> \<le> 1 / 48 \<and> \<bar>y' - y\<bar> \<le> 1 / 48 \<and> \<bar>w' - w\<bar> \<le> 1 / 48 \<and> \<bar>h' - h\<bar> \<le> 1 / 48"
proof -
  from roundtrip_field [OF assms(3), of x] obtain x' where
    x: "js_mul (js_mul (map_option round100 (js_div (Some x) (300 / 72))) (Some (300 / 72)))
          (js_div (Some (dim_width dims)) (dim_width dims)) = Some x'" "\<bar>x' - x\<bar> \<le> 1 / 48"
    by blast
  from roundtrip_field [OF assms(3), of w] obtain w' where
    w: "js_mul (js_mul (map_option round100 (js_div (Some w) (300 / 72))) (Some (300 / 72)))
          (js_div (Some (dim_width dims)) (dim_width dims)) = Some w'" "\<bar>w' - w\<bar> \<le> 1 / 48"
    by blast
  from roundtrip_field [OF assms(4), of y] obtain y' where
    y: "js_mul (js_mul (map_option round100 (js_div (Some y) (300 / 72))) (Some (300 / 72)))
          (js_div (Some (dim_height dims)) (dim_height dims)) = Some y'" "\<bar>y' - y\<bar> \<le> 1 / 48"
    by blast
  from roundtrip_field [OF assms(4), of h] obtain h' where
    h: "js_mul (js_mul (map_option round100 (js_div (Some h) (300 / 72))) (Some (300 / 72)))
          (js_div (Some (dim_height dims)) (dim_height dims)) = Some h'" "\<bar>h' - h\<bar> \<le> 1 / 48"
    by blast
  have "pdfPointsToDisplayCoords
             (rect_x (conv_pt (imageCoordsToPDFPoints (Some x) (Some y) (Some w) (Some h))))
             (rect_y (conv_pt (imageCoordsToPDFPoints (Some x) (Some y) (Some w) (Some h))))
             (rect_width (conv_pt (imageCoordsToPDFPoints (Some x) (Some y) (Some w) (Some h))))
             (rect_height (conv_pt (imageCoordsToPDFPoints (Some x) (Some y) (Some w) (Some h))))
             (Some dims) (Some element)
        = Some \<lparr> rect_x = Some x', rect_y = Some y', rect_width = Some w', rect_height = Some h' \<rparr>"
    unfolding pdfPointsToDisplayCoords_def imageCoordsToPDFPoints_def Let_def
    using x(1) y(1) w(1) h(1) assms(1,2) by simp
  with x(2) y(2) w(2) h(2) show ?thesis by blast
qed

theorem C5_raster_point_display_roundtrip_witness:
  "\<exists>x' y' w' h'.
     pdfPointsToDisplayCoords
       (rect_x (conv_pt (imageCoordsToPDFPoints (Some 101) (Some 202) (Some 303) (Some 404))))
       (rect_y (conv_pt (imageCoordsToPDFPoints (Some 101) (Some 202) (Some 303) (Some 404))))
       (rect_width (conv_pt (imageCoordsToPDFPoints (Some 101) (Some 202) (Some 303) (Some 404))))
       (rect_height (conv_pt (imageCoordsToPDFPoints (Some 101) (Some 202) (Some 303) (Some 404))))
       (Some example_dims) (Some example_element_full)
     = Some \<lparr> rect_x = Some x', rect_y = Some y', rect_width = Some w', rect_height = Some h' \<rparr>
   \<and> \<bar>x' - 101\<bar> \<le> 1 / 48 \<and> \<bar>y' - 202\<bar> \<le> 1 / 48 \<and> \<bar>w' - 303\<bar> \<le> 1 / 48 \<and> \<bar>h' - 404\<bar> \<le> 1 / 48"
proof -
  have "clientWidth example_element_full = dim_width example_dims"
    and "clientHeight example_element_full = dim_height example_dims"
    and "dim_width example_dims \<noteq> 0" and "dim_height example_dims \<noteq> 0"
    by (simp_all add: example_dims_def example_element_full_def)
  then show ?thesis by (rule C5_raster_point_display_roundtrip)
qed

section \<open>OCR results: results\<close>

text \<open>
  Claim C9. The confidence filter keeps, in their order, exactly the items whose confidence
  is not strictly below the threshold, a confidence that is missing or not a number
  counting as 0. An item whose confidence equals the threshold is kept, and under a
  positive threshold no item without a numeric confidence is kept.
\<close>

theorem C9_confidence_filter:
  "filterOCRResultsByConfidence items m
     = filter (\<lambda>item. \<not> (case item_confidence item of Some c \<Rightarrow> c | None \<Rightarrow> 0) < m) items
   \<and> (\<forall>item \<in> set items. item_confidence item = Some m
         \<longrightarrow> item \<in> set (filterOCRResultsByConfidence items m))
   \<and> (0 < m \<longrightarrow> (\<forall>item \<in> set (filterOCRResultsByConfidence items m). item_confidence item \<noteq> None))"
proof -
  have "filterOCRResultsByConfidence items m
     = filter (\<lambda>item. \<not> (case item_confidence item of Some c \<Rightarrow> c | None \<Rightarrow> 0) < m) items"
    by (simp add: filterOCRResultsByConfidence_def Let_def not_less)
  then show ?thesis by (auto split: option.splits)
qed

theorem C9_confidence_filter_witness:
  "filterOCRResultsByConfidence
     [example_item (Some 59), example_item (Some 60), example_item None, example_item (Some 61)] 60
   = [example_item (Some 60), example_item (Some 61)]"
  using C9_confidence_filter
    [of "[example_item (Some 59), example_item (Some 60), example_item None, example_item (Some 61)]" 60]
  by (simp add: example_item_def)

lemma generateBoundingBoxes_forEach_rects:
  "map box_rect (generateBoundingBoxes_forEach lvl now items index boxes)
     = map box_rect boxes
       @ map the (filter (\<lambda>c. c \<noteq> None \<and> rect_x (the c) \<noteq> Some 0 \<and> rect_y (the c) \<noteq> Some 0)
                    (map item_coords items))"
proof (induction items arbitrary: index boxes)
  case Nil
  show ?case by simp
next
  case (Cons item rest)
  show ?case
  proof (cases "item_coords item")
    case None
    then have "generateBoundingBoxes_forEach lvl now (item # rest) index boxes
                 = generateBoundingBoxes_forEach lvl now rest (index + 1) boxes"
      by (simp add: item_coords_def split: option.splits)
    with None show ?thesis by (simp add: Cons.IH)
  next
    case (Some c)
    show ?thesis
    proof (cases "rect_x c \<noteq> Some 0 \<and> rect_y c \<noteq> Some 0")
      case True
      with Some have "\<exists>b. generateBoundingBoxes_forEach lvl now (item # rest) index boxes
                 = generateBoundingBoxes_forEach lvl now rest (index + 1) (boxes @ [b])
               \<and> box_rect b = c"
        by (auto simp add: item_coords_def box_rect_def split: option.splits)
      then obtain b where
        "generateBoundingBoxes_forEach lvl now (item # rest) index boxes
           = generateBoundingBoxes_forEach lvl now rest (index + 1) (boxes @ [b])"
        and "box_rect b = c" by blast
      with Some True show ?thesis by (simp add: Cons.IH)
    next
      case False
      with Some have "generateBoundingBoxes_forEach lvl now (item # rest) index boxes
                 = generateBoundingBoxes_forEach lvl now rest (index + 1) boxes"
        by (auto simp add: item_coords_def split: option.splits)
      with Some False show ?thesis by (auto simp add: Cons.IH)
    qed
  qed
qed

lemma generateBoundingBoxes_forEach_unit:
  "\<forall>b \<in> set boxes. box_unit b = Pt \<and> box_kind b = Some Ocr
   \<Longrightarrow> \<forall>b \<in> set (generateBoundingBoxes_forEach lvl now items index boxes).
         box_unit b = Pt \<and> box_kind b = Some Ocr"
proof (induction items arbitrary: index boxes)
  case Nil
  then show ?case by simp
next
  case (Cons item rest)
  show ?case
    unfolding generateBoundingBoxes_forEach.simps
    by (rule Cons.IH) (use Cons.prems in \<open>auto split: option.split\<close>)
qed

lemma processOCRItem_flush:
  assumes "bbox_field (tess_bbox word) tess_x0 = 0 \<or> bbox_field (tess_bbox word) tess_y0 = 0"
  shows "\<exists>c. item_coords (processOCRItem name performOCR_convert now (index, word)) = Some c
             \<and> (rect_x c = Some 0 \<or> rect_y c = Some 0)"
  using assms
  by (auto simp add: item_coords_def processOCRItem_def performOCR_convert_def
      imageCoordsToPDFPoints_def js_div_def round100_def Math_round_def Let_def)

text \<open>
  Claim C10. Every box that \<open>generateBoundingBoxes\<close> returns has a point-space x and a
  point-space y different from 0, and the boxes returned are, in order, those of the items
  that pass the confidence filter, have point-space coordinates, and have neither x nor y
  equal to 0: an item whose point-space x or y is 0 yields no box. Such is every item that
  \<open>processOCRResult\<close> makes of a detection whose box starts at the left edge (\<open>x0 = 0\<close>)
  or at the top edge (\<open>y0 = 0\<close>) of the page image.
\<close>

theorem C10_zero_coordinates_excluded:
  "(\<forall>b \<in> set (generateBoundingBoxes st now unit). box_x b \<noteq> Some 0 \<and> box_y b \<noteq> Some 0)
   \<and> map box_rect (generateBoundingBoxes st now unit)
       = map the (filter (\<lambda>c. c \<noteq> None \<and> rect_x (the c) \<noteq> Some 0 \<and> rect_y (the c) \<noteq> Some 0)
           (map item_coords
              (case textData st of
                 None \<Rightarrow> []
               | Some ocrData \<Rightarrow>
                   filterOCRResultsByConfidence (getOCRDataByLevel ocrData (level (settings st)))
                     (minConfidence (settings st)))))
   \<and> (\<forall>word index name.
         bbox_field (tess_bbox word) tess_x0 = 0 \<or> bbox_field (tess_bbox word) tess_y0 = 0
         \<longrightarrow> (\<exists>c. item_coords (processOCRItem name performOCR_convert now (index, word)) = Some c
                  \<and> (rect_x c = Some 0 \<or> rect_y c = Some 0)))"
proof -
  let ?kept = "\<lambda>c. c \<noteq> None \<and> rect_x (the c) \<noteq> Some 0 \<and> rect_y (the c) \<noteq> Some 0"
  let ?items = "case textData st of
                  None \<Rightarrow> []
                | Some ocrData \<Rightarrow>
                    filterOCRResultsByConfidence (getOCRDataByLevel ocrData (level (settings st)))
                      (minConfidence (settings st))"
  have rects: "map box_rect (generateBoundingBoxes st now unit)
                 = map the (filter ?kept (map item_coords ?items))"
    by (cases "textData st")
       (simp_all add: generateBoundingBoxes_def Let_def generateBoundingBoxes_forEach_rects)
  have "box_x b \<noteq> Some 0 \<and> box_y b \<noteq> Some 0"
    if "b \<in> set (generateBoundingBoxes st now unit)" for b
  proof -
    from that have "box_rect b \<in> set (map box_rect (generateBoundingBoxes st now unit))"
      by simp
    then have "box_rect b \<in> the ` {c \<in> set (map item_coords ?items). ?kept c}"
      by (simp only: rects set_map set_filter)
    then obtain c where "?kept c" and "box_rect b = the c" by blast
    then show ?thesis by (auto simp add: box_rect_def)
  qed
  with rects processOCRItem_flush show ?thesis by blast
qed

theorem C10_zero_coordinates_excluded_witness:
  "map item_coords
     (getOCRDataByLevel (processOCRResult example_tess_data performOCR_convert 0) Word)
     = [Some \<lparr> rect_x = Some 0, rect_y = Some 12, rect_width = Some 24, rect_height = Some 12 \<rparr>,
        Some \<lparr> rect_x = Some 24, rect_y = Some 48, rect_width = Some 48, rect_height = Some 12 \<rparr>]
   \<and> map box_rect (generateBoundingBoxes example_ocr_state 0 Pt)
     = [\<lparr> rect_x = Some 24, rect_y = Some 48, rect_width = Some 48, rect_height = Some 12 \<rparr>]"
proof -
  define td where "td = processOCRResult example_tess_data performOCR_convert 0"
  have items: "map item_coords (getOCRDataByLevel td Word)
     = [Some \<lparr> rect_x = Some 0, rect_y = Some 12, rect_width = Some 24, rect_height = Some 12 \<rparr>,
        Some \<lparr> rect_x = Some 24, rect_y = Some 48, rect_width = Some 48, rect_height = Some 12 \<rparr>]"
    by (simp add: td_def processOCRResult_def processOCRItems_def
        processOCRItem_def example_tess_data_def example_tess_word_def bbox_field_def
        performOCR_convert_def imageCoordsToPDFPoints_def js_div_def round100_def
        Math_round_def getOCRDataByLevel_def item_coords_def Let_def)
  have conf: "filterOCRResultsByConfidence (getOCRDataByLevel td Word) 60
              = getOCRDataByLevel td Word"
    by (simp add: td_def processOCRResult_def processOCRItems_def
        processOCRItem_def example_tess_data_def example_tess_word_def
        getOCRDataByLevel_def filterOCRResultsByConfidence_def Let_def)
  have st: "textData example_ocr_state = Some td"
    and lv: "level (settings example_ocr_state) = Word"
    and mc: "minConfidence (settings example_ocr_state) = 60"
    by (simp_all add: example_ocr_state_def td_def)
  have "map box_rect (generateBoundingBoxes example_ocr_state 0 Pt)
     = [\<lparr> rect_x = Some 24, rect_y = Some 48, rect_width = Some 48, rect_height = Some 12 \<rparr>]"
    using C10_zero_coordinates_excluded [of example_ocr_state 0 Pt]
    by (simp add: st lv mc conf items)
  with items show ?thesis by (simp add: td_def)
qed

section \<open>Producers of bounding boxes: the unit of a stored box\<close>

lemma ImagePDFTool_handleMouseUp_unit:
  assumes "\<forall>b \<in> set (img_boundingBoxes st). box_unit b = Pt"
  shows "\<forall>b \<in> set (img_boundingBoxes (ImagePDFTool_handleMouseUp st queried cx cy now)).
           box_unit b = Pt"
  using assms
  by (auto simp add: ImagePDFTool_handleMouseUp_def addBoundingBoxes_def Let_def
      split: option.splits)

lemma generateBoundingBoxes_unit:
  "\<forall>b \<in> set (generateBoundingBoxes st now unit). box_unit b = Pt \<and> box_kind b = Some Ocr"
proof (cases "textData st")
  case None
  then show ?thesis by (simp add: generateBoundingBoxes_def)
next
  case (Some ocrData)
  have "\<forall>b \<in> set ([] :: BoundingBox list). box_unit b = Pt \<and> box_kind b = Some Ocr" by simp
  then show ?thesis
    unfolding generateBoundingBoxes_def Some option.case Let_def
    by (rule generateBoundingBoxes_forEach_unit)
qed

lemma detectTables_unit:
  assumes "fst (detectTables st browser now) = Inr boxes"
  shows "\<forall>b \<in> set boxes. box_unit b = Pt \<and> box_kind b = Some Table"
proof -
  have fb: "\<forall>b \<in> set bs. box_unit b = Pt \<and> box_kind b = Some Table"
    if "detectTablesFallback st browser now = Inr bs" for bs
    using that
    by (auto simp add: detectTablesFallback_def Let_def cellBox_def regionBox_def tableBox_def
        split: option.splits if_splits)
  have cv: "\<forall>b \<in> set bs. box_unit b = Pt \<and> box_kind b = Some Table"
    if "detectTablesWithOpenCV st browser engine now = Inr bs" for bs engine
    using that
    by (auto simp add: detectTablesWithOpenCV_def Let_def tableBox_def
        split: option.splits if_splits)
  from assms have "detectTablesFallback st browser now = Inr boxes
      \<or> (\<exists>engine. detectTablesWithOpenCV st browser engine now = Inr boxes)"
    by (auto simp add: detectTables_def Let_def split: option.splits sum.splits if_splits)
  with fb cv show ?thesis by blast
qed

lemma ImagePDFTool_drag_example:
  "img_boundingBoxes
     (ImagePDFTool_handleMouseUp
        (ImagePDFTool_handleMouseMove (ImagePDFTool_handleMouseDown example_image_tool 10 10) 110 60 1)
        None 110 60 2)
   = [\<lparr> box_id = ''bbox-2'', box_x = Some 7.2, box_y = Some 7.2, box_width = Some 72,
        box_height = Some 36, box_unit = Pt, box_kind = Some Manual \<rparr>]"
  by (simp add: ImagePDFTool_handleMouseUp_def ImagePDFTool_handleMouseMove_def
      ImagePDFTool_handleMouseDown_def example_image_tool_def example_dims_def
      example_element_third_def convertDisplayToPDF_def displayToImageCoords_def
      imageCoordsToPDFPoints_def js_div_def js_mul_def round100_def Math_round_def
      addBoundingBoxes_def Let_def dec.simps falsy_def)

text \<open>
  Claim C1. Every box that a producer stores should hold point-space values and the unit
  \<^verbatim>\<open>'pt'\<close>, whatever unit is selected for display. The drag-release of \<open>ImagePDFTool\<close>,
  the OCR generator and the table detector do so (the three lemmas above). The
  drag-release of \<open>PDFBboxTool\<close> does not: the tool starts with the unit \<^verbatim>\<open>'px'\<close>
  selected, and a drag from (10, 10) to (110, 60) at zoom 1 stores the point-space
  rectangle (10, 10, 100, 50) with the unit field \<^verbatim>\<open>'px'\<close>, the selected unit.
\<close>

theorem C1_PDFBboxTool_stores_selected_unit:
  "pdf_boundingBoxes
     (PDFBboxTool_handleMouseUp
        (PDFBboxTool_handleMouseMove (PDFBboxTool_handleMouseDown example_pdf_tool 10 10) 110 60 1) 2)
   = [\<lparr> box_id = ''bbox-2'', box_x = Some 10, box_y = Some 10, box_width = Some 100,
        box_height = Some 50, box_unit = Px, box_kind = None \<rparr>]"
  by (simp add: PDFBboxTool_handleMouseUp_def PDFBboxTool_handleMouseMove_def
      PDFBboxTool_handleMouseDown_def example_pdf_tool_def example_document_def
      convertCanvasToPDF_def js_div_def js_mul_def js_gt_def round100_def Math_round_def
      Let_def dec.simps)

theorem C1_PDFBboxTool_stores_selected_unit_witness:
  "map box_unit
     (pdf_boundingBoxes
        (PDFBboxTool_handleMouseUp
           (PDFBboxTool_handleMouseMove (PDFBboxTool_handleMouseDown example_pdf_tool 10 10) 110 60 1) 2))
   = [Px]
   \<and> map box_rect
     (pdf_boundingBoxes
        (PDFBboxTool_handleMouseUp
           (PDFBboxTool_handleMouseMove (PDFBboxTool_handleMouseDown example_pdf_tool 10 10) 110 60 1) 2))
   = [\<lparr> rect_x = Some 10, rect_y = Some 10, rect_width = Some 100, rect_height = Some 50 \<rparr>]"
  using C1_PDFBboxTool_stores_selected_unit by (simp add: box_rect_def)

section \<open>The pixel-scan detector: results\<close>

lemma isDark_grid:
  assumes "x < width" and "y < height"
  shows "isDark (grid_image width height isRow isCol) width x y \<longleftrightarrow> isRow y \<or> isCol x"
proof -
  define p where "p = y * width + x"
  have lt: "p < width * height"
  proof -
    have "p < y * width + width" using assms(1) by (simp add: p_def)
    also have "\<dots> = (y + 1) * width" by simp
    also have "\<dots> \<le> height * width" using assms(2) by (intro mult_le_mono1) simp
    finally show ?thesis by (simp add: mult.commute)
  qed
  have row: "p div width = y" and col: "p mod width = x" using assms(1) by (simp_all add: p_def)
  have b: "byte_at (grid_image width height isRow isCol) (p * 4 + k)
             = Some (if isRow y \<or> isCol x then 0 else 255)" if "k < 3" for k
  proof -
    have idx: "p * 4 + k < 4 * width * height" using lt that by simp
    have dv: "(p * 4 + k) div 4 = p" using that by simp
    have md: "(p * 4 + k) mod 4 \<noteq> 3" using that by presburger
    show ?thesis
      unfolding byte_at_def grid_image_def
      using idx md by (simp add: dv row col del: upt_Suc)
  qed
  have "gray_at (grid_image width height isRow isCol) (p * 4)
          = Some (if isRow y \<or> isCol x then 0 else 255)"
    using b [of 0] b [of 1] b [of 2] by (simp add: gray_at_def)
  then show ?thesis by (simp add: isDark_def js_lt_def p_def)
qed

lemma scanRun_ge:
  assumes "c \<le> m"
  shows "n \<le> scanRun dark width x c m \<longleftrightarrow>
           n \<le> m
         \<or> (\<exists>j>0. x + j \<le> width \<and> n \<le> c + j \<and> (\<forall>i<j. dark (x + i)))
         \<or> (\<exists>a\<ge>x. a + n \<le> width \<and> (\<forall>i<n. dark (a + i)))"
  using assms
proof (induction k \<equiv> "width - x" arbitrary: x c m)
  case 0
  then have "\<not> x < width" by simp
  then have res: "scanRun dark width x c m = m"
    by (simp add: scanRun.simps)
  have "n \<le> m" if "x \<le> a" and "a + n \<le> width" for a
    using that \<open>\<not> x < width\<close> by simp
  moreover have "\<not> (x + j \<le> width)" if "0 < j" for j
    using that \<open>\<not> x < width\<close> by simp
  ultimately show ?case unfolding res by blast
next
  case (Suc k)
  let ?D = dark
  from Suc.hyps(2) have xw: "x < width" and k: "k = width - (x + 1)" by simp_all
  show ?case
  proof (cases "?D x")
    case True
    then have res: "scanRun dark width x c m
           = scanRun dark width (x + 1) (c + 1) (max m (c + 1))"
      using xw by (subst scanRun.simps) simp
    have IH: "n \<le> scanRun dark width (x + 1) (c + 1) (max m (c + 1)) \<longleftrightarrow>
           n \<le> max m (c + 1)
         \<or> (\<exists>j>0. x + 1 + j \<le> width \<and> n \<le> c + 1 + j \<and> (\<forall>i<j. ?D (x + 1 + i)))
         \<or> (\<exists>a\<ge>x + 1. a + n \<le> width \<and> (\<forall>i<n. ?D (a + i)))"
      by (rule Suc.hyps(1) [OF k]) simp
    have shift: "(\<forall>i<Suc j. ?D (x + i)) \<longleftrightarrow> (\<forall>i<j. ?D (x + 1 + i))" for j
      using True by (auto simp add: less_Suc_eq_0_disj)
    show ?thesis
    proof
      assume "n \<le> scanRun dark width x c m"
      with res IH consider "n \<le> m" | "n \<le> c + 1"
        | j where "0 < j" "x + 1 + j \<le> width" "n \<le> c + 1 + j" "\<forall>i<j. ?D (x + 1 + i)"
        | a where "x + 1 \<le> a" "a + n \<le> width" "\<forall>i<n. ?D (a + i)"
        by (auto simp add: le_max_iff_disj)
      then show "n \<le> m
         \<or> (\<exists>j>0. x + j \<le> width \<and> n \<le> c + j \<and> (\<forall>i<j. ?D (x + i)))
         \<or> (\<exists>a\<ge>x. a + n \<le> width \<and> (\<forall>i<n. ?D (a + i)))"
      proof cases
        case 1
        then show ?thesis by simp
      next
        case 2
        have "0 < (1::nat) \<and> x + 1 \<le> width \<and> n \<le> c + 1 \<and> (\<forall>i<1. ?D (x + i))"
          using 2 xw True by simp
        then show ?thesis by blast
      next
        case 3
        have "0 < Suc j \<and> x + Suc j \<le> width \<and> n \<le> c + Suc j \<and> (\<forall>i<Suc j. ?D (x + i))"
          using 3 shift [of j] by simp
        then show ?thesis by blast
      next
        case 4
        then have "x \<le> a" by simp
        with 4 show ?thesis by blast
      qed
    next
      assume "n \<le> m
         \<or> (\<exists>j>0. x + j \<le> width \<and> n \<le> c + j \<and> (\<forall>i<j. ?D (x + i)))
         \<or> (\<exists>a\<ge>x. a + n \<le> width \<and> (\<forall>i<n. ?D (a + i)))"
      then consider "n \<le> m"
        | j where "0 < j" "x + j \<le> width" "n \<le> c + j" "\<forall>i<j. ?D (x + i)"
        | a where "x \<le> a" "a + n \<le> width" "\<forall>i<n. ?D (a + i)"
        by blast
      then have "n \<le> max m (c + 1)
         \<or> (\<exists>j>0. x + 1 + j \<le> width \<and> n \<le> c + 1 + j \<and> (\<forall>i<j. ?D (x + 1 + i)))
         \<or> (\<exists>a\<ge>x + 1. a + n \<le> width \<and> (\<forall>i<n. ?D (a + i)))"
      proof cases
        case 1
        then show ?thesis by (simp add: le_max_iff_disj)
      next
        case 2
        obtain j' where j': "j = Suc j'" using 2(1) by (cases j) simp_all
        show ?thesis
        proof (cases "j' = 0")
          case True
          with 2 j' show ?thesis by (simp add: le_max_iff_disj)
        next
          case False
          have "0 < j' \<and> x + 1 + j' \<le> width \<and> n \<le> c + 1 + j' \<and> (\<forall>i<j'. ?D (x + 1 + i))"
            using 2 j' False shift [of j'] by simp
          then show ?thesis by blast
        qed
      next
        case 3
        show ?thesis
        proof (cases "a = x")
          case False
          with 3 have "x + 1 \<le> a" by simp
          with 3 show ?thesis by blast
        next
          case ax: True
          show ?thesis
          proof (cases n)
            case 0
            then show ?thesis by simp
          next
            case (Suc n')
            show ?thesis
            proof (cases "n' = 0")
              case True
              with Suc show ?thesis by (simp add: le_max_iff_disj)
            next
              case False
              have "0 < n' \<and> x + 1 + n' \<le> width \<and> n \<le> c + 1 + n' \<and> (\<forall>i<n'. ?D (x + 1 + i))"
                using 3 ax Suc False shift [of n'] by simp
              then show ?thesis by blast
            qed
          qed
        qed
      qed
      with res IH show "n \<le> scanRun dark width x c m" by simp
    qed
  next
    case False
    then have res: "scanRun dark width x c m
           = scanRun dark width (x + 1) 0 m"
      using xw by (subst scanRun.simps) simp
    have IH: "n \<le> scanRun dark width (x + 1) 0 m \<longleftrightarrow>
           n \<le> m
         \<or> (\<exists>j>0. x + 1 + j \<le> width \<and> n \<le> 0 + j \<and> (\<forall>i<j. ?D (x + 1 + i)))
         \<or> (\<exists>a\<ge>x + 1. a + n \<le> width \<and> (\<forall>i<n. ?D (a + i)))"
      by (rule Suc.hyps(1) [OF k]) simp
    show ?thesis
    proof
      assume "n \<le> scanRun dark width x c m"
      with res IH consider "n \<le> m"
        | j where "0 < j" "x + 1 + j \<le> width" "n \<le> j" "\<forall>i<j. ?D (x + 1 + i)"
        | a where "x + 1 \<le> a" "a + n \<le> width" "\<forall>i<n. ?D (a + i)"
        by auto
      then show "n \<le> m
         \<or> (\<exists>j>0. x + j \<le> width \<and> n \<le> c + j \<and> (\<forall>i<j. ?D (x + i)))
         \<or> (\<exists>a\<ge>x. a + n \<le> width \<and> (\<forall>i<n. ?D (a + i)))"
      proof cases
        case 1
        then show ?thesis by simp
      next
        case 2
        have "x \<le> x + 1 \<and> (x + 1) + n \<le> width \<and> (\<forall>i<n. ?D ((x + 1) + i))"
          using 2 by simp
        then show ?thesis by blast
      next
        case 3
        then have "x \<le> a" by simp
        with 3 show ?thesis by blast
      qed
    next
      assume "n \<le> m
         \<or> (\<exists>j>0. x + j \<le> width \<and> n \<le> c + j \<and> (\<forall>i<j. ?D (x + i)))
         \<or> (\<exists>a\<ge>x. a + n \<le> width \<and> (\<forall>i<n. ?D (a + i)))"
      then consider "n \<le> m"
        | j where "0 < j" "x + j \<le> width" "n \<le> c + j" "\<forall>i<j. ?D (x + i)"
        | a where "x \<le> a" "a + n \<le> width" "\<forall>i<n. ?D (a + i)"
        by blast
      then have "n \<le> m
         \<or> (\<exists>j>0. x + 1 + j \<le> width \<and> n \<le> 0 + j \<and> (\<forall>i<j. ?D (x + 1 + i)))
         \<or> (\<exists>a\<ge>x + 1. a + n \<le> width \<and> (\<forall>i<n. ?D (a + i)))"
      proof cases
        case 1
        then show ?thesis by simp
      next
        case 2
        then have "?D (x + 0)" by blast
        with False show ?thesis by simp
      next
        case 3
        show ?thesis
        proof (cases "a = x")
          case False
          with 3 have "x + 1 \<le> a" by simp
          with 3 show ?thesis by blast
        next
          case ax: True
          show ?thesis
          proof (cases "n = 0")
            case True
            then show ?thesis by simp
          next
            case n0: False
            with 3 ax have "?D (x + 0)" by blast
            with False show ?thesis by simp
          qed
        qed
      qed
      with res IH show "n \<le> scanRun dark width x c m" by simp
    qed
  qed
qed

lemma scanRun_hasDarkRun:
  "minLength \<le> real (scanRun dark limit 0 0 0) \<longleftrightarrow> hasDarkRun dark limit minLength"
proof -
  have key: "n \<le> scanRun dark limit 0 0 0 \<longleftrightarrow> (\<exists>a. a + n \<le> limit \<and> (\<forall>i<n. dark (a + i)))" for n
  proof
    assume "n \<le> scanRun dark limit 0 0 0"
    then consider "n \<le> 0"
      | j where "0 < j" "0 + j \<le> limit" "n \<le> 0 + j" "\<forall>i<j. dark (0 + i)"
      | a where "a + n \<le> limit" "\<forall>i<n. dark (a + i)"
      using scanRun_ge [of 0 0 n dark limit 0] by auto
    then show "\<exists>a. a + n \<le> limit \<and> (\<forall>i<n. dark (a + i))"
    proof cases
      case 1
      then have "0 + n \<le> limit \<and> (\<forall>i<n. dark (0 + i))" by simp
      then show ?thesis by blast
    next
      case 2
      then have "0 + n \<le> limit \<and> (\<forall>i<n. dark (0 + i))" by simp
      then show ?thesis by blast
    next
      case 3
      then show ?thesis by blast
    qed
  next
    assume "\<exists>a. a + n \<le> limit \<and> (\<forall>i<n. dark (a + i))"
    then obtain a where "0 \<le> a \<and> a + n \<le> limit \<and> (\<forall>i<n. dark (a + i))" by auto
    then show "n \<le> scanRun dark limit 0 0 0"
      using scanRun_ge [of 0 0 n dark limit 0] by blast
  qed
  show ?thesis
  proof
    assume le: "minLength \<le> real (scanRun dark limit 0 0 0)"
    let ?n = "scanRun dark limit 0 0 0"
    from key [of ?n] obtain a where a: "a + ?n \<le> limit" "\<forall>i<?n. dark (a + i)" by auto
    then have "a \<in> {.. limit}" "?n \<in> {.. limit}" by simp_all
    with a le show "hasDarkRun dark limit minLength"
      unfolding hasDarkRun_def by (intro bexI [of _ a] bexI [of _ ?n]) auto
  next
    assume "hasDarkRun dark limit minLength"
    then obtain a n where "minLength \<le> real n" "a + n \<le> limit" "\<forall>i<n. dark (a + i)"
      unfolding hasDarkRun_def by auto
    with key [of n] have "minLength \<le> real n" "n \<le> scanRun dark limit 0 0 0" by auto
    then show "minLength \<le> real (scanRun dark limit 0 0 0)" by simp
  qed
qed

lemma detectHorizontalLines_row_scanRun:
  "detectHorizontalLines_row pixelData width y x c m
     = scanRun (\<lambda>i. isDark pixelData width i y) width x c m"
proof (induction k \<equiv> "width - x" arbitrary: x c m)
  case 0
  then show ?case by (simp add: detectHorizontalLines_row.simps scanRun.simps)
next
  case (Suc k)
  then have "x < width" and "k = width - (x + 1)" by simp_all
  then show ?case
    by (subst detectHorizontalLines_row.simps, subst scanRun.simps)
       (simp add: Suc.hyps(1) isDark_def Let_def)
qed

lemma detectVerticalLines_col_scanRun:
  "detectVerticalLines_col pixelData width height x y c m
     = scanRun (\<lambda>i. isDark pixelData width x i) height y c m"
proof (induction k \<equiv> "height - y" arbitrary: y c m)
  case 0
  then show ?case by (simp add: detectVerticalLines_col.simps scanRun.simps)
next
  case (Suc k)
  then have "y < height" and "k = height - (y + 1)" by simp_all
  then show ?case
    by (subst detectVerticalLines_col.simps, subst scanRun.simps)
       (simp add: Suc.hyps(1) isDark_def Let_def)
qed

lemma detectHorizontalLines_rows_filter:
  "detectHorizontalLines_rows pixelData width height minLength y found
     = found @ map real (filter (rowHasDarkRun pixelData width minLength) [y ..< height])"
proof (induction k \<equiv> "height - y" arbitrary: y found)
  case 0
  then show ?case by (simp add: detectHorizontalLines_rows.simps)
next
  case (Suc k)
  then have y: "y < height" and k: "k = height - Suc y" by simp_all
  have test: "minLength \<le> real (detectHorizontalLines_row pixelData width y 0 0 0)
                \<longleftrightarrow> rowHasDarkRun pixelData width minLength y"
    by (simp add: detectHorizontalLines_row_scanRun scanRun_hasDarkRun rowHasDarkRun_def)
  show ?case
    using y
    by (subst detectHorizontalLines_rows.simps)
       (simp add: Suc.hyps(1) [OF k] test upt_conv_Cons Let_def)
qed

lemma detectVerticalLines_cols_filter:
  "detectVerticalLines_cols pixelData width height minLength x found
     = found @ map real (filter (colHasDarkRun pixelData width height minLength) [x ..< width])"
proof (induction k \<equiv> "width - x" arbitrary: x found)
  case 0
  then show ?case by (simp add: detectVerticalLines_cols.simps)
next
  case (Suc k)
  then have x: "x < width" and k: "k = width - Suc x" by simp_all
  have test: "minLength \<le> real (detectVerticalLines_col pixelData width height x 0 0 0)
                \<longleftrightarrow> colHasDarkRun pixelData width height minLength x"
    by (simp add: detectVerticalLines_col_scanRun scanRun_hasDarkRun colHasDarkRun_def)
  show ?case
    using x
    by (subst detectVerticalLines_cols.simps)
       (simp add: Suc.hyps(1) [OF k] test upt_conv_Cons Let_def)
qed

lemma detectHorizontalLines_filter:
  "detectHorizontalLines pixelData width height minLength
     = map real (filter (rowHasDarkRun pixelData width minLength) [0 ..< height])"
  by (simp add: detectHorizontalLines_def detectHorizontalLines_rows_filter)

lemma detectVerticalLines_filter:
  "detectVerticalLines pixelData width height minLength
     = map real (filter (colHasDarkRun pixelData width height minLength) [0 ..< width])"
  by (simp add: detectVerticalLines_def detectVerticalLines_cols_filter)

lemma upt_split: "i \<le> j \<Longrightarrow> j \<le> k \<Longrightarrow> [i ..< k] = [i ..< j] @ [j ..< k]"
  using upt_add_eq_append [of i j "k - j"] by simp

lemma filter_upt_bands:
  assumes P: "\<forall>i<len. P i \<longleftrightarrow> in_bands a s t i"
    and ts: "t \<le> s" and fit: "a + 2 * s + t \<le> len"
  shows "filter P [0 ..< len] = [a ..< a + t] @ [a + s ..< a + s + t] @ [a + 2 * s ..< a + 2 * s + t]"
proof -
  have "[0 ..< len] = [0 ..< a] @ [a ..< len]" using fit by (intro upt_split) simp_all
  also have "[a ..< len] = [a ..< a + t] @ [a + t ..< len]" using fit by (intro upt_split) simp_all
  also have "[a + t ..< len] = [a + t ..< a + s] @ [a + s ..< len]"
    using fit ts by (intro upt_split) simp_all
  also have "[a + s ..< len] = [a + s ..< a + s + t] @ [a + s + t ..< len]"
    using fit by (intro upt_split) simp_all
  also have "[a + s + t ..< len] = [a + s + t ..< a + 2 * s] @ [a + 2 * s ..< len]"
    using fit ts by (intro upt_split) simp_all
  also have "[a + 2 * s ..< len] = [a + 2 * s ..< a + 2 * s + t] @ [a + 2 * s + t ..< len]"
    using fit by (intro upt_split) simp_all
  finally have split: "[0 ..< len] = [0 ..< a] @ [a ..< a + t] @ [a + t ..< a + s]
      @ [a + s ..< a + s + t] @ [a + s + t ..< a + 2 * s]
      @ [a + 2 * s ..< a + 2 * s + t] @ [a + 2 * s + t ..< len]" .
  have out0: "filter P [0 ..< a] = []"
    using P fit by (intro filter_False) (auto simp add: in_bands_def)
  have in0: "filter P [a ..< a + t] = [a ..< a + t]"
    using P fit by (intro filter_True) (auto simp add: in_bands_def)
  have out1: "filter P [a + t ..< a + s] = []"
    using P fit ts by (intro filter_False) (auto simp add: in_bands_def)
  have in1: "filter P [a + s ..< a + s + t] = [a + s ..< a + s + t]"
    using P fit by (intro filter_True) (auto simp add: in_bands_def)
  have out2: "filter P [a + s + t ..< a + 2 * s] = []"
    using P fit ts by (intro filter_False) (auto simp add: in_bands_def)
  have in2: "filter P [a + 2 * s ..< a + 2 * s + t] = [a + 2 * s ..< a + 2 * s + t]"
    using P fit by (intro filter_True) (auto simp add: in_bands_def)
  have out3: "filter P [a + 2 * s + t ..< len] = []"
    using P fit by (intro filter_False) (auto simp add: in_bands_def)
  show ?thesis
    by (subst split) (simp only: filter_append out0 in0 out1 in1 out2 in2 out3 append_Nil append_Nil2)
qed

lemma filterLines_loop_append:
  "filterLines_loop d (xs @ ys) filtered = filterLines_loop d ys (filterLines_loop d xs filtered)"
  by (induction xs arbitrary: filtered) simp_all

lemma filterLines_loop_near:
  "\<forall>l \<in> set ls. l - last filtered < d \<Longrightarrow> filterLines_loop d ls filtered = filtered"
  by (induction ls) simp_all

lemma band_Cons: "0 < t \<Longrightarrow> [a ..< a + t] = a # [a + 1 ..< a + t]"
  by (simp add: upt_conv_Cons)

lemma filterLines_bands:
  assumes t: "0 < t" and thin: "real (t - 1) < d" and apart: "d \<le> real s"
  shows "filterLines
           (map real ([a ..< a + t] @ [a + s ..< a + s + t] @ [a + 2 * s ..< a + 2 * s + t]))
           maxDimension d
         = [real a, real (a + s), real (a + 2 * s)]"
proof -
  define bands where
    "bands = map real ([a ..< a + t] @ [a + s ..< a + s + t] @ [a + 2 * s ..< a + 2 * s + t])"
  define r0 where "r0 = map real [a + 1 ..< a + t]"
  define r1 where "r1 = map real [a + s + 1 ..< a + s + t]"
  define r2 where "r2 = map real [a + 2 * s + 1 ..< a + 2 * s + t]"
  from thin apart have "real (t - 1) < real s" by simp
  then have ts: "t \<le> s" by simp
  have "sorted ([a ..< a + t] @ [a + s ..< a + s + t] @ [a + 2 * s ..< a + 2 * s + t])"
    using ts by (auto simp add: sorted_append)
  then have "sorted bands"
    unfolding bands_def by (simp add: sorted_map del: map_append)
  then have srt: "sort bands = bands" by (rule sorted_sort_id)
  have shape: "bands = real a # (r0 @ [real (a + s)] @ r1 @ [real (a + 2 * s)] @ r2)"
    unfolding bands_def r0_def r1_def r2_def
    using band_Cons [OF t, of a] band_Cons [OF t, of "a + s"] band_Cons [OF t, of "a + 2 * s"]
    by (simp add: add.assoc)
  have near: "\<forall>l \<in> set (map real [b + 1 ..< b + t]). l - last (pre @ [real b]) < d" for b pre
  proof
    fix l assume "l \<in> set (map real [b + 1 ..< b + t])"
    then obtain i where "l = real i" "b + 1 \<le> i" "i < b + t" by auto
    then have "l - real b \<le> real (t - 1)" by (simp add: of_nat_diff)
    with thin show "l - last (pre @ [real b]) < d" by simp
  qed
  have s0: "filterLines_loop d r0 [real a] = [real a]"
    unfolding r0_def using near [of a "[]"] by (intro filterLines_loop_near) simp
  have s1: "filterLines_loop d r1 [real a, real (a + s)] = [real a, real (a + s)]"
    unfolding r1_def using near [of "a + s" "[real a]"]
    by (intro filterLines_loop_near) (simp add: add.assoc)
  have s2: "filterLines_loop d r2 [real a, real (a + s), real (a + 2 * s)]
              = [real a, real (a + s), real (a + 2 * s)]"
    unfolding r2_def using near [of "a + 2 * s" "[real a, real (a + s)]"]
    by (intro filterLines_loop_near) (simp add: add.assoc)
  have k1: "filterLines_loop d [real (a + s)] [real a] = [real a, real (a + s)]"
    using apart by simp
  have k2: "filterLines_loop d [real (a + 2 * s)] [real a, real (a + s)]
              = [real a, real (a + s), real (a + 2 * s)]"
    using apart by simp
  have loop: "filterLines_loop d (r0 @ [real (a + s)] @ r1 @ [real (a + 2 * s)] @ r2) [real a]
          = [real a, real (a + s), real (a + 2 * s)]"
    by (simp only: filterLines_loop_append s0 k1 s1 k2 s2)
  have "length bands \<noteq> 0" by (simp add: shape)
  then have "filterLines bands maxDimension d
          = (case sort bands of [] \<Rightarrow> [] | first # rest \<Rightarrow> filterLines_loop d rest [first])"
    by (simp only: filterLines_def if_False)
  also have "\<dots> = filterLines_loop d (r0 @ [real (a + s)] @ r1 @ [real (a + 2 * s)] @ r2) [real a]"
    by (subst srt, subst shape) (simp only: list.case)
  finally show ?thesis
    unfolding bands_def by (simp only: loop)
qed

lemma isValidCell_iff:
  "isValidCell x y w h imgWidth imgHeight \<longleftrightarrow>
     20 \<le> w \<and> 15 \<le> h \<and> w \<le> imgWidth * 0.9 \<and> h \<le> imgHeight * 0.9
     \<and> 0 \<le> x \<and> 0 \<le> y \<and> x + w \<le> imgWidth \<and> y + h \<le> imgHeight
     \<and> 0.1 \<le> w / h \<and> w / h \<le> 10"
  by (auto simp add: isValidCell_def Let_def)

lemma createCellsFromLines_three:
  "createCellsFromLines [h0, h1, h2] [v0, v1, v2] imgWidth imgHeight
     = createCellsFromLines_cell [h0, h1, h2] [v0, v1, v2] imgWidth imgHeight 0 0
       @ createCellsFromLines_cell [h0, h1, h2] [v0, v1, v2] imgWidth imgHeight 0 1
       @ createCellsFromLines_cell [h0, h1, h2] [v0, v1, v2] imgWidth imgHeight 1 0
       @ createCellsFromLines_cell [h0, h1, h2] [v0, v1, v2] imgWidth imgHeight 1 1"
proof -
  have "[0 ..< length [h0, h1, h2] - 1] = [0, 1]" and "[0 ..< length [v0, v1, v2] - 1] = [0, 1]"
    by (simp_all add: upt_rec)
  then show ?thesis by (simp add: createCellsFromLines_def)
qed

lemma createCellsFromLines_grid:
  assumes "20 \<le> colStep" and "15 \<le> rowStep"
    and "real colStep \<le> imgWidth * 0.9" and "real rowStep \<le> imgHeight * 0.9"
    and "real (colStart + 2 * colStep) \<le> imgWidth" and "real (rowStart + 2 * rowStep) \<le> imgHeight"
    and "colStep \<le> 10 * rowStep" and "rowStep \<le> 10 * colStep"
  shows "createCellsFromLines
           [real rowStart, real (rowStart + rowStep), real (rowStart + 2 * rowStep)]
           [real colStart, real (colStart + colStep), real (colStart + 2 * colStep)]
           imgWidth imgHeight
         = [\<lparr> cell_x = real colStart, cell_y = real rowStart, cell_width = real colStep,
               cell_height = real rowStep, cell_row = 0, cell_col = 0 \<rparr>,
            \<lparr> cell_x = real (colStart + colStep), cell_y = real rowStart, cell_width = real colStep,
               cell_height = real rowStep, cell_row = 0, cell_col = 1 \<rparr>,
            \<lparr> cell_x = real colStart, cell_y = real (rowStart + rowStep), cell_width = real colStep,
               cell_height = real rowStep, cell_row = 1, cell_col = 0 \<rparr>,
            \<lparr> cell_x = real (colStart + colStep), cell_y = real (rowStart + rowStep),
               cell_width = real colStep, cell_height = real rowStep, cell_row = 1, cell_col = 1 \<rparr>]"
proof -
  have ratio: "0.1 \<le> real colStep / real rowStep" "real colStep / real rowStep \<le> 10"
  proof -
    have pos: "0 < real rowStep" using assms(2) by simp
    have "real rowStep \<le> 10 * real colStep" using assms(8) by (metis of_nat_le_iff of_nat_mult of_nat_numeral)
    then show "0.1 \<le> real colStep / real rowStep" using pos by (simp add: field_simps)
    have "real colStep \<le> 10 * real rowStep" using assms(7) by (metis of_nat_le_iff of_nat_mult of_nat_numeral)
    then show "real colStep / real rowStep \<le> 10" using pos by (simp add: field_simps)
  qed
  have valid: "isValidCell x y (real colStep) (real rowStep) imgWidth imgHeight"
    if "0 \<le> x" "0 \<le> y" "x + real colStep \<le> imgWidth" "y + real rowStep \<le> imgHeight" for x y
    using that assms(1-4) ratio by (simp add: isValidCell_iff)
  have v00: "isValidCell (real colStart) (real rowStart) (real colStep) (real rowStep) imgWidth imgHeight"
    using assms(5,6) by (intro valid) simp_all
  have v01: "isValidCell (real colStart + real colStep) (real rowStart) (real colStep) (real rowStep)
               imgWidth imgHeight"
    using assms(5,6) by (intro valid) simp_all
  have v10: "isValidCell (real colStart) (real rowStart + real rowStep) (real colStep) (real rowStep)
               imgWidth imgHeight"
    using assms(5,6) by (intro valid) simp_all
  have v11: "isValidCell (real colStart + real colStep) (real rowStart + real rowStep) (real colStep)
               (real rowStep) imgWidth imgHeight"
    using assms(5,6) by (intro valid) simp_all
  show ?thesis
    unfolding createCellsFromLines_three
    by (simp add: createCellsFromLines_cell_def Let_def v00 v01 v10 v11)
qed

lemma fallback_lines_bands:
  assumes rows: "\<forall>y<height. rowHasDarkRun pixelData width (real width * 0.3) y
                   \<longleftrightarrow> in_bands rowStart rowStep rowThick y"
    and thick: "0 < rowThick" "real (rowThick - 1) < max 10 (real height * 0.01)"
    and apart: "max 10 (real height * 0.01) \<le> real rowStep"
    and fit: "rowStart + 2 * rowStep + rowThick \<le> height"
  shows "length (detectHorizontalLines pixelData width height (real width * 0.3)) \<ge> 2"
    and "filterLines_default (detectHorizontalLines pixelData width height (real width * 0.3))
           (real height)
         = [real rowStart, real (rowStart + rowStep), real (rowStart + 2 * rowStep)]"
proof -
  from thick(2) apart have "real (rowThick - 1) < real rowStep" by (rule less_le_trans)
  then have ts: "rowThick \<le> rowStep" by simp
  have raw: "detectHorizontalLines pixelData width height (real width * 0.3)
      = map real ([rowStart ..< rowStart + rowThick] @ [rowStart + rowStep ..< rowStart + rowStep + rowThick]
                  @ [rowStart + 2 * rowStep ..< rowStart + 2 * rowStep + rowThick])"
    unfolding detectHorizontalLines_filter
    using filter_upt_bands [OF rows ts fit] by (simp only:)
  show "length (detectHorizontalLines pixelData width height (real width * 0.3)) \<ge> 2"
    unfolding raw using thick(1) by simp
  show "filterLines_default (detectHorizontalLines pixelData width height (real width * 0.3))
           (real height)
         = [real rowStart, real (rowStart + rowStep), real (rowStart + 2 * rowStep)]"
    unfolding raw filterLines_default_def
    by (rule filterLines_bands [OF thick(1) thick(2) apart])
qed

lemma fallback_columns_bands:
  assumes cols: "\<forall>x<width. colHasDarkRun pixelData width height (real height * 0.3) x
                   \<longleftrightarrow> in_bands colStart colStep colThick x"
    and thick: "0 < colThick" "real (colThick - 1) < max 10 (real width * 0.01)"
    and apart: "max 10 (real width * 0.01) \<le> real colStep"
    and fit: "colStart + 2 * colStep + colThick \<le> width"
  shows "length (detectVerticalLines pixelData width height (real height * 0.3)) \<ge> 2"
    and "filterLines_default (detectVerticalLines pixelData width height (real height * 0.3))
           (real width)
         = [real colStart, real (colStart + colStep), real (colStart + 2 * colStep)]"
proof -
  from thick(2) apart have "real (colThick - 1) < real colStep" by (rule less_le_trans)
  then have ts: "colThick \<le> colStep" by simp
  have raw: "detectVerticalLines pixelData width height (real height * 0.3)
      = map real ([colStart ..< colStart + colThick] @ [colStart + colStep ..< colStart + colStep + colThick]
                  @ [colStart + 2 * colStep ..< colStart + 2 * colStep + colThick])"
    unfolding detectVerticalLines_filter
    using filter_upt_bands [OF cols ts fit] by (simp only:)
  show "length (detectVerticalLines pixelData width height (real height * 0.3)) \<ge> 2"
    unfolding raw using thick(1) by simp
  show "filterLines_default (detectVerticalLines pixelData width height (real height * 0.3))
           (real width)
         = [real colStart, real (colStart + colStep), real (colStart + 2 * colStep)]"
    unfolding raw filterLines_default_def
    by (rule filterLines_bands [OF thick(1) thick(2) apart])
qed

text \<open>
  Claim C8, as the code has it. Take a page with an image (a non-empty
  \<^verbatim>\<open>imageDataUrl\<close>, an image element, a canvas context) in which the rows that hold a dark run of at
  least 30% of the width are three bands of one thickness, evenly spaced, and the columns
  that hold a dark run of at least 30% of the height likewise. When each band is thin
  enough to collapse to one line (its thickness less one is below the distance
  \<open>max 10 (0.01 * dimension)\<close> of \<open>filterLines\<close>), the spacing is at least that
  distance, and the cell between neighbouring bands passes \<open>isValidCell\<close> (at least 20
  wide and 15 high, at most 90% of the image on either axis, aspect ratio between 0.1 and
  10), the pixel scan in \<open>cells\<close> mode creates exactly four cells, the 2 by 2 grid with row
  and column indices 0 and 1, and the detector returns their four boxes.
\<close>

theorem C8_fallback_cells_of_grid:
  assumes page: "\<not> falsy (td_imageDataUrl st)" "td_mode st = CellsMode"
      "doc_img browser = Some img" "doc_canvas2d browser"
      "naturalWidth img = width" "naturalHeight img = height" "imagePixels img = pixelData"
    and rows: "\<forall>y<height. rowHasDarkRun pixelData width (real width * 0.3) y
                 \<longleftrightarrow> in_bands rowStart rowStep rowThick y"
    and cols: "\<forall>x<width. colHasDarkRun pixelData width height (real height * 0.3) x
                 \<longleftrightarrow> in_bands colStart colStep colThick x"
    and rowThin: "0 < rowThick" "real (rowThick - 1) < max 10 (real height * 0.01)"
    and rowApart: "max 10 (real height * 0.01) \<le> real rowStep"
    and rowFit: "rowStart + 2 * rowStep + rowThick \<le> height"
    and colThin: "0 < colThick" "real (colThick - 1) < max 10 (real width * 0.01)"
    and colApart: "max 10 (real width * 0.01) \<le> real colStep"
    and colFit: "colStart + 2 * colStep + colThick \<le> width"
    and size: "20 \<le> colStep" "15 \<le> rowStep"
      "real colStep \<le> real width * 0.9" "real rowStep \<le> real height * 0.9"
    and aspect: "colStep \<le> 10 * rowStep" "rowStep \<le> 10 * colStep"
  shows "createCellsFromLines
           (filterLines_default (detectHorizontalLines pixelData width height (real width * 0.3))
              (real height))
           (filterLines_default (detectVerticalLines pixelData width height (real height * 0.3))
              (real width))
           (real width) (real height)
         = [\<lparr> cell_x = real colStart, cell_y = real rowStart, cell_width = real colStep,
               cell_height = real rowStep, cell_row = 0, cell_col = 0 \<rparr>,
            \<lparr> cell_x = real (colStart + colStep), cell_y = real rowStart, cell_width = real colStep,
               cell_height = real rowStep, cell_row = 0, cell_col = 1 \<rparr>,
            \<lparr> cell_x = real colStart, cell_y = real (rowStart + rowStep), cell_width = real colStep,
               cell_height = real rowStep, cell_row = 1, cell_col = 0 \<rparr>,
            \<lparr> cell_x = real (colStart + colStep), cell_y = real (rowStart + rowStep),
               cell_width = real colStep, cell_height = real rowStep, cell_row = 1, cell_col = 1 \<rparr>]
       \<and> detectTablesFallback st browser now
         = Inr (map (cellBox now)
             [\<lparr> cell_x = real colStart, cell_y = real rowStart, cell_width = real colStep,
                 cell_height = real rowStep, cell_row = 0, cell_col = 0 \<rparr>,
              \<lparr> cell_x = real (colStart + colStep), cell_y = real rowStart, cell_width = real colStep,
                 cell_height = real rowStep, cell_row = 0, cell_col = 1 \<rparr>,
              \<lparr> cell_x = real colStart, cell_y = real (rowStart + rowStep), cell_width = real colStep,
                 cell_height = real rowStep, cell_row = 1, cell_col = 0 \<rparr>,
              \<lparr> cell_x = real (colStart + colStep), cell_y = real (rowStart + rowStep),
                 cell_width = real colStep, cell_height = real rowStep, cell_row = 1, cell_col = 1 \<rparr>])"
proof -
  note h = fallback_lines_bands [OF rows rowThin rowApart rowFit]
  note v = fallback_columns_bands [OF cols colThin colApart colFit]
  have inW: "real (colStart + 2 * colStep) \<le> real width"
    and inH: "real (rowStart + 2 * rowStep) \<le> real height"
    using rowFit colFit by simp_all
  note cells = createCellsFromLines_grid [OF size inW inH aspect]
  have dims: "naturalWidth img \<noteq> 0" "naturalHeight img \<noteq> 0"
    using page(5,6) rowFit colFit rowThin(1) colThin(1) by simp_all
  have cellsEq: "createCellsFromLines
           (filterLines_default (detectHorizontalLines pixelData width height (real width * 0.3))
              (real height))
           (filterLines_default (detectVerticalLines pixelData width height (real height * 0.3))
              (real width))
           (real width) (real height)
         = [\<lparr> cell_x = real colStart, cell_y = real rowStart, cell_width = real colStep,
               cell_height = real rowStep, cell_row = 0, cell_col = 0 \<rparr>,
            \<lparr> cell_x = real (colStart + colStep), cell_y = real rowStart, cell_width = real colStep,
               cell_height = real rowStep, cell_row = 0, cell_col = 1 \<rparr>,
            \<lparr> cell_x = real colStart, cell_y = real (rowStart + rowStep), cell_width = real colStep,
               cell_height = real rowStep, cell_row = 1, cell_col = 0 \<rparr>,
            \<lparr> cell_x = real (colStart + colStep), cell_y = real (rowStart + rowStep),
               cell_width = real colStep, cell_height = real rowStep, cell_row = 1, cell_col = 1 \<rparr>]"
    by (simp only: h(2) v(2) cells)
  define hl where "hl = detectHorizontalLines pixelData width height (real width * 0.3)"
  define vl where "vl = detectVerticalLines pixelData width height (real height * 0.3)"
  define cells where "cells = createCellsFromLines (filterLines_default hl (real height))
                                (filterLines_default vl (real width)) (real width) (real height)"
  have enough: "2 \<le> length hl \<and> 2 \<le> length vl"
    using h(1) v(1) by (simp only: hl_def vl_def)
  have some: "length (map (cellBox now) cells) \<noteq> 0"
    unfolding cells_def hl_def vl_def cellsEq by simp
  have "detectTablesFallback st browser now = Inr (map (cellBox now) cells)"
    unfolding detectTablesFallback_def Let_def page(3) option.case page(5,6,7)
      hl_def [symmetric] vl_def [symmetric] cells_def [symmetric]
    using page(1,2,4) dims [unfolded page(5,6)] enough some by simp
  then have "detectTablesFallback st browser now
          = Inr (map (cellBox now)
              (createCellsFromLines
                 (filterLines_default (detectHorizontalLines pixelData width height (real width * 0.3))
                    (real height))
                 (filterLines_default (detectVerticalLines pixelData width height (real height * 0.3))
                    (real width))
                 (real width) (real height)))"
    by (simp only: cells_def hl_def vl_def)
  then show ?thesis by (simp only: cellsEq simp_thms)
qed

lemma grid_rowHasDarkRun:
  assumes y: "y < height" and thin: "\<forall>x. isCol x \<longrightarrow> \<not> isCol (Suc x)"
    and long: "1 < minLength" "minLength \<le> real width"
  shows "rowHasDarkRun (grid_image width height isRow isCol) width minLength y \<longleftrightarrow> isRow y"
proof
  assume "rowHasDarkRun (grid_image width height isRow isCol) width minLength y"
  then obtain a n where n: "minLength \<le> real n" "a + n \<le> width"
      and run: "\<forall>i<n. isDark (grid_image width height isRow isCol) width (a + i) y"
    unfolding rowHasDarkRun_def hasDarkRun_def by auto
  from n(1) long(1) have "2 \<le> n" by simp
  then have "0 < n" "1 < n" by simp_all
  with run have "isDark (grid_image width height isRow isCol) width (a + 0) y"
    and "isDark (grid_image width height isRow isCol) width (a + 1) y" by blast+
  moreover have "a + 0 < width" "a + 1 < width" using n(2) \<open>2 \<le> n\<close> by simp_all
  ultimately have "isRow y \<or> isCol a" and "isRow y \<or> isCol (Suc a)"
    using y by (simp_all add: isDark_grid)
  with thin show "isRow y" by blast
next
  assume "isRow y"
  then have "\<forall>i \<in> {..< width}. isDark (grid_image width height isRow isCol) width (0 + i) y"
    using y by (simp add: isDark_grid)
  moreover have "0 \<in> {.. width}" "width \<in> {.. width}" "0 + width \<le> width" by simp_all
  ultimately show "rowHasDarkRun (grid_image width height isRow isCol) width minLength y"
    unfolding rowHasDarkRun_def hasDarkRun_def using long(2) by blast
qed

lemma grid_colHasDarkRun:
  assumes x: "x < width" and thin: "\<forall>y. isRow y \<longrightarrow> \<not> isRow (Suc y)"
    and long: "1 < minLength" "minLength \<le> real height"
  shows "colHasDarkRun (grid_image width height isRow isCol) width height minLength x \<longleftrightarrow> isCol x"
proof
  assume "colHasDarkRun (grid_image width height isRow isCol) width height minLength x"
  then obtain a n where n: "minLength \<le> real n" "a + n \<le> height"
      and run: "\<forall>i<n. isDark (grid_image width height isRow isCol) width x (a + i)"
    unfolding colHasDarkRun_def hasDarkRun_def by auto
  from n(1) long(1) have "2 \<le> n" by simp
  then have "0 < n" "1 < n" by simp_all
  with run have "isDark (grid_image width height isRow isCol) width x (a + 0)"
    and "isDark (grid_image width height isRow isCol) width x (a + 1)" by blast+
  moreover have "a + 0 < height" "a + 1 < height" using n(2) \<open>2 \<le> n\<close> by simp_all
  ultimately have "isRow a \<or> isCol x" and "isRow (Suc a) \<or> isCol x"
    using x by (simp_all add: isDark_grid)
  with thin show "isCol x" by blast
next
  assume "isCol x"
  then have "\<forall>i \<in> {..< height}. isDark (grid_image width height isRow isCol) width x (0 + i)"
    using x by (simp add: isDark_grid)
  moreover have "0 \<in> {.. height}" "height \<in> {.. height}" "0 + height \<le> height" by simp_all
  ultimately show "colHasDarkRun (grid_image width height isRow isCol) width height minLength x"
    unfolding colHasDarkRun_def hasDarkRun_def using long(2) by blast
qed

lemma in_bands_thin: "2 \<le> s \<Longrightarrow> in_bands 0 s 1 i \<longrightarrow> \<not> in_bands 0 s 1 (Suc i)"
  by (auto simp add: in_bands_def)

lemma example_grid_rows:
  assumes "2 \<le> s"
  shows "\<forall>y < 2 * s + 1.
           rowHasDarkRun (grid_image (2 * s + 1) (2 * s + 1) (in_bands 0 s 1) (in_bands 0 s 1))
             (2 * s + 1) (real (2 * s + 1) * 0.3) y
           \<longleftrightarrow> in_bands 0 s 1 y"
proof (intro allI impI)
  fix y assume "y < 2 * s + 1"
  moreover have "\<forall>x. in_bands 0 s 1 x \<longrightarrow> \<not> in_bands 0 s 1 (Suc x)"
    using in_bands_thin [OF assms] by blast
  moreover have "1 < real (2 * s + 1) * 0.3" using assms by simp
  moreover have "real (2 * s + 1) * 0.3 \<le> real (2 * s + 1)" by simp
  ultimately show "rowHasDarkRun (grid_image (2 * s + 1) (2 * s + 1) (in_bands 0 s 1) (in_bands 0 s 1))
             (2 * s + 1) (real (2 * s + 1) * 0.3) y
           \<longleftrightarrow> in_bands 0 s 1 y"
    by (rule grid_rowHasDarkRun)
qed

lemma example_grid_cols:
  assumes "2 \<le> s"
  shows "\<forall>x < 2 * s + 1.
           colHasDarkRun (grid_image (2 * s + 1) (2 * s + 1) (in_bands 0 s 1) (in_bands 0 s 1))
             (2 * s + 1) (2 * s + 1) (real (2 * s + 1) * 0.3) x
           \<longleftrightarrow> in_bands 0 s 1 x"
proof (intro allI impI)
  fix x assume "x < 2 * s + 1"
  moreover have "\<forall>y. in_bands 0 s 1 y \<longrightarrow> \<not> in_bands 0 s 1 (Suc y)"
    using in_bands_thin [OF assms] by blast
  moreover have "1 < real (2 * s + 1) * 0.3" using assms by simp
  moreover have "real (2 * s + 1) * 0.3 \<le> real (2 * s + 1)" by simp
  ultimately show "colHasDarkRun (grid_image (2 * s + 1) (2 * s + 1) (in_bands 0 s 1) (in_bands 0 s 1))
             (2 * s + 1) (2 * s + 1) (real (2 * s + 1) * 0.3) x
           \<longleftrightarrow> in_bands 0 s 1 x"
    by (rule grid_colHasDarkRun)
qed

lemma detectTableRegions_small:
  "height \<le> 50 \<Longrightarrow> detectTableRegions pixelData width height = []"
  by (simp add: detectTableRegions_def detectTableRegions_ys.simps)

lemma example_grid_lines:
  assumes "10 \<le> s"
  shows "length (detectHorizontalLines
                   (grid_image (2 * s + 1) (2 * s + 1) (in_bands 0 s 1) (in_bands 0 s 1))
                   (2 * s + 1) (2 * s + 1) (real (2 * s + 1) * 0.3)) \<ge> 2"
    and "filterLines_default
           (detectHorizontalLines
              (grid_image (2 * s + 1) (2 * s + 1) (in_bands 0 s 1) (in_bands 0 s 1))
              (2 * s + 1) (2 * s + 1) (real (2 * s + 1) * 0.3))
           (real (2 * s + 1))
         = [real 0, real (0 + s), real (0 + 2 * s)]"
    and "length (detectVerticalLines
                   (grid_image (2 * s + 1) (2 * s + 1) (in_bands 0 s 1) (in_bands 0 s 1))
                   (2 * s + 1) (2 * s + 1) (real (2 * s + 1) * 0.3)) \<ge> 2"
    and "filterLines_default
           (detectVerticalLines
              (grid_image (2 * s + 1) (2 * s + 1) (in_bands 0 s 1) (in_bands 0 s 1))
              (2 * s + 1) (2 * s + 1) (real (2 * s + 1) * 0.3))
           (real (2 * s + 1))
         = [real 0, real (0 + s), real (0 + 2 * s)]"
proof -
  from assms have s2: "2 \<le> s" by simp
  have thin: "0 < (1::nat)" "real ((1::nat) - 1) < max 10 (real (2 * s + 1) * 0.01)" by simp_all
  have apart: "max 10 (real (2 * s + 1) * 0.01) \<le> real s" using assms by simp
  have fit: "0 + 2 * s + 1 \<le> 2 * s + 1" by simp
  note r = fallback_lines_bands [OF example_grid_rows [OF s2] thin apart fit]
  note c = fallback_columns_bands [OF example_grid_cols [OF s2] thin apart fit]
  show "length (detectHorizontalLines
                   (grid_image (2 * s + 1) (2 * s + 1) (in_bands 0 s 1) (in_bands 0 s 1))
                   (2 * s + 1) (2 * s + 1) (real (2 * s + 1) * 0.3)) \<ge> 2" by (rule r(1))
  show "filterLines_default
           (detectHorizontalLines
              (grid_image (2 * s + 1) (2 * s + 1) (in_bands 0 s 1) (in_bands 0 s 1))
              (2 * s + 1) (2 * s + 1) (real (2 * s + 1) * 0.3))
           (real (2 * s + 1))
         = [real 0, real (0 + s), real (0 + 2 * s)]" by (rule r(2))
  show "length (detectVerticalLines
                   (grid_image (2 * s + 1) (2 * s + 1) (in_bands 0 s 1) (in_bands 0 s 1))
                   (2 * s + 1) (2 * s + 1) (real (2 * s + 1) * 0.3)) \<ge> 2" by (rule c(1))
  show "filterLines_default
           (detectVerticalLines
              (grid_image (2 * s + 1) (2 * s + 1) (in_bands 0 s 1) (in_bands 0 s 1))
              (2 * s + 1) (2 * s + 1) (real (2 * s + 1) * 0.3))
           (real (2 * s + 1))
         = [real 0, real (0 + s), real (0 + 2 * s)]" by (rule c(2))
qed

lemma example_grid_15_no_cells:
  "createCellsFromLines
     (filterLines_default
        (detectHorizontalLines (grid_image 31 31 (in_bands 0 15 1) (in_bands 0 15 1)) 31 31 (real 31 * 0.3))
        (real 31))
     (filterLines_default
        (detectVerticalLines (grid_image 31 31 (in_bands 0 15 1) (in_bands 0 15 1)) 31 31 (real 31 * 0.3))
        (real 31))
     (real 31) (real 31) = []"
proof -
  have ten: "10 \<le> (15::nat)" by simp
  have e: "2 * 15 + 1 = (31::nat)" by simp
  note l = example_grid_lines [OF ten, unfolded e]
  show ?thesis
    unfolding l(2) l(4) createCellsFromLines_three
    by (simp add: createCellsFromLines_cell_def isValidCell_def)
qed

lemma example_grid_15_fallback:
  "detectTablesFallback (example_detection (Some ''page'') CellsMode) (example_browser 15) now = Inr []"
proof -
  have ten: "10 \<le> (15::nat)" by simp
  have e: "2 * 15 + 1 = (31::nat)" by simp
  note l = example_grid_lines [OF ten, unfolded e]
  define hl where "hl = detectHorizontalLines (grid_image 31 31 (in_bands 0 15 1) (in_bands 0 15 1))
                          31 31 (real 31 * 0.3)"
  define vl where "vl = detectVerticalLines (grid_image 31 31 (in_bands 0 15 1) (in_bands 0 15 1))
                          31 31 (real 31 * 0.3)"
  define cells where "cells = createCellsFromLines (filterLines_default hl (real 31))
                                (filterLines_default vl (real 31)) (real 31) (real 31)"
  have none: "cells = []"
    unfolding cells_def hl_def vl_def by (rule example_grid_15_no_cells)
  have regions: "detectTableRegions (grid_image 31 31 (in_bands 0 15 1) (in_bands 0 15 1)) 31 31 = []"
    by (rule detectTableRegions_small) simp
  have img: "doc_img (example_browser 15) = Some (example_grid_element 15)"
    and ctx: "doc_canvas2d (example_browser 15)"
    and w: "naturalWidth (example_grid_element 15) = 31"
    and h: "naturalHeight (example_grid_element 15) = 31"
    and px: "imagePixels (example_grid_element 15)
               = grid_image 31 31 (in_bands 0 15 1) (in_bands 0 15 1)"
    and url: "\<not> falsy (td_imageDataUrl (example_detection (Some ''page'') CellsMode))"
    and mode: "td_mode (example_detection (Some ''page'') CellsMode) = CellsMode"
    by (simp_all add: example_browser_def example_grid_element_def example_detection_def falsy_def)
  show ?thesis
    unfolding detectTablesFallback_def Let_def img option.case w h px
      hl_def [symmetric] vl_def [symmetric] cells_def [symmetric]
    using url mode ctx none regions by simp
qed

text \<open>
  Claim C8, as stated, fails. On a 31 by 31 image with one-pixel black rules on rows and
  columns 0, 15 and 30, the four cells between the rules are 15 pixels wide, below the 20
  that \<open>isValidCell\<close> demands: no cell is created and the detector returns no box.
\<close>

theorem C8_counterexample:
  "createCellsFromLines
     (filterLines_default
        (detectHorizontalLines (grid_image 31 31 (in_bands 0 15 1) (in_bands 0 15 1)) 31 31 (real 31 * 0.3))
        (real 31))
     (filterLines_default
        (detectVerticalLines (grid_image 31 31 (in_bands 0 15 1) (in_bands 0 15 1)) 31 31 (real 31 * 0.3))
        (real 31))
     (real 31) (real 31) = []
   \<and> detectTablesFallback (example_detection (Some ''page'') CellsMode) (example_browser 15) 0 = Inr []"
  using example_grid_15_no_cells example_grid_15_fallback [of 0] by (simp only: simp_thms)

theorem C8_fallback_cells_of_grid_witness:
  "detectTablesFallback (example_detection (Some ''page'') CellsMode) (example_browser 50) 0
     = Inr (map (cellBox 0)
         [\<lparr> cell_x = 0, cell_y = 0, cell_width = 50, cell_height = 50, cell_row = 0, cell_col = 0 \<rparr>,
          \<lparr> cell_x = 50, cell_y = 0, cell_width = 50, cell_height = 50, cell_row = 0, cell_col = 1 \<rparr>,
          \<lparr> cell_x = 0, cell_y = 50, cell_width = 50, cell_height = 50, cell_row = 1, cell_col = 0 \<rparr>,
          \<lparr> cell_x = 50, cell_y = 50, cell_width = 50, cell_height = 50, cell_row = 1, cell_col = 1 \<rparr>])"
proof -
  have s2: "2 \<le> (50::nat)" by simp
  have e: "2 * 50 + 1 = (101::nat)" by simp
  have page: "\<not> falsy (td_imageDataUrl (example_detection (Some ''page'') CellsMode))"
    "td_mode (example_detection (Some ''page'') CellsMode) = CellsMode"
    "doc_img (example_browser 50) = Some (example_grid_element 50)"
    "doc_canvas2d (example_browser 50)"
    "naturalWidth (example_grid_element 50) = 101"
    "naturalHeight (example_grid_element 50) = 101"
    "imagePixels (example_grid_element 50) = grid_image 101 101 (in_bands 0 50 1) (in_bands 0 50 1)"
    by (simp_all add: example_browser_def example_grid_element_def example_detection_def falsy_def)
  have thin: "0 < (1::nat)" "real ((1::nat) - 1) < max 10 (real (101::nat) * 0.01)" by simp_all
  have apart: "max 10 (real (101::nat) * 0.01) \<le> real (50::nat)" by simp
  have fit: "0 + 2 * 50 + 1 \<le> (101::nat)" by simp
  have size: "20 \<le> (50::nat)" "15 \<le> (50::nat)"
    "real (50::nat) \<le> real (101::nat) * 0.9" "real (50::nat) \<le> real (101::nat) * 0.9" by simp_all
  have aspect: "(50::nat) \<le> 10 * 50" "(50::nat) \<le> 10 * 50" by simp_all
  from C8_fallback_cells_of_grid [OF page example_grid_rows [OF s2, unfolded e]
      example_grid_cols [OF s2, unfolded e] thin apart fit thin apart fit size aspect, of 0]
  show ?thesis by simp
qed

section \<open>The detector and its caller: results\<close>

lemma detectTables_fallback:
  assumes "window_cv browser = None \<or> \<not> td_cvLoaded st \<or> td_cvError st \<noteq> None"
  shows "fst (detectTables st browser now) = detectTablesFallback st browser now"
  using assms
  by (auto simp add: detectTables_def Let_def split: option.splits sum.splits)

lemma detectTables_throws:
  assumes "window_cv browser = None \<or> \<not> td_cvLoaded st \<or> td_cvError st \<noteq> None"
    and "detectTablesFallback st browser now = Inl (Error msg)"
  shows "fst (detectTables st browser now) = Inl (Error msg)"
    and "td_cvError (snd (detectTables st browser now)) = Some (DetectionFailed msg)"
  using assms
  by (auto simp add: detectTables_def Let_def error_message_def split: option.splits)

text \<open>
  Claim C4, as the code has it. When the morphological engine is unavailable the detector
  runs the pixel scan. With a page image (a non-empty \<^verbatim>\<open>imageDataUrl\<close>), its element, a
  canvas context and an image of non-zero size it returns boxes, never an error, and the
  boxes are none when the scan finds no region and (in \<open>cells\<close> mode) no cell. It throws
  when \<^verbatim>\<open>imageDataUrl\<close> is null or empty, when the page image is there and no image
  element is found, and when the element is found and the canvas gives no 2D context: the
  error reaches the caller and is recorded in \<^verbatim>\<open>cvError\<close>.
\<close>

theorem C4_detectTables_without_engine:
  assumes "window_cv browser = None \<or> \<not> td_cvLoaded st \<or> td_cvError st \<noteq> None"
  shows "(\<not> falsy (td_imageDataUrl st) \<and> doc_img browser = Some img \<and> doc_canvas2d browser
            \<and> 0 < naturalWidth img \<and> 0 < naturalHeight img
          \<longrightarrow> (\<exists>boxes. fst (detectTables st browser now) = Inr boxes
                \<and> (detectTableRegions (imagePixels img) (naturalWidth img) (naturalHeight img) = []
                    \<and> (td_mode st = CellsMode \<longrightarrow>
                         createCellsFromLines
                           (filterLines_default
                              (detectHorizontalLines (imagePixels img) (naturalWidth img)
                                 (naturalHeight img) (real (naturalWidth img) * 0.3))
                              (real (naturalHeight img)))
                           (filterLines_default
                              (detectVerticalLines (imagePixels img) (naturalWidth img)
                                 (naturalHeight img) (real (naturalHeight img) * 0.3))
                              (real (naturalWidth img)))
                           (real (naturalWidth img)) (real (naturalHeight img)) = [])
                    \<longrightarrow> boxes = [])))
       \<and> (falsy (td_imageDataUrl st)
          \<longrightarrow> fst (detectTables st browser now)
                = Inl (Error ''No image available for table detection'')
            \<and> td_cvError (snd (detectTables st browser now))
                = Some (DetectionFailed ''No image available for table detection''))
       \<and> (\<not> falsy (td_imageDataUrl st) \<and> doc_img browser = None
          \<longrightarrow> fst (detectTables st browser now) = Inl (Error ''Image element not found'')
            \<and> td_cvError (snd (detectTables st browser now))
                = Some (DetectionFailed ''Image element not found''))
       \<and> (\<not> falsy (td_imageDataUrl st) \<and> doc_img browser = Some img \<and> \<not> doc_canvas2d browser
          \<longrightarrow> fst (detectTables st browser now) = Inl (Error ''Canvas context not available'')
            \<and> td_cvError (snd (detectTables st browser now))
                = Some (DetectionFailed ''Canvas context not available''))"
proof (intro conjI impI)
  assume ok: "\<not> falsy (td_imageDataUrl st) \<and> doc_img browser = Some img \<and> doc_canvas2d browser
            \<and> 0 < naturalWidth img \<and> 0 < naturalHeight img"
  define hl where "hl = detectHorizontalLines (imagePixels img) (naturalWidth img)
                          (naturalHeight img) (real (naturalWidth img) * 0.3)"
  define vl where "vl = detectVerticalLines (imagePixels img) (naturalWidth img)
                          (naturalHeight img) (real (naturalHeight img) * 0.3)"
  define cells where "cells = createCellsFromLines (filterLines_default hl (real (naturalHeight img)))
                                (filterLines_default vl (real (naturalWidth img)))
                                (real (naturalWidth img)) (real (naturalHeight img))"
  define regions where
    "regions = detectTableRegions (imagePixels img) (naturalWidth img) (naturalHeight img)"
  define tableBoxes where
    "tableBoxes = (if length hl \<ge> 2 \<and> length vl \<ge> 2
                   then if td_mode st = CellsMode then map (cellBox now) cells else []
                   else [])"
  have img: "doc_img browser = Some img" using ok by simp
  have url: "falsy (td_imageDataUrl st) \<longleftrightarrow> False"
    and ctx: "\<not> doc_canvas2d browser \<longleftrightarrow> False"
    and dims: "naturalWidth img = 0 \<or> naturalHeight img = 0 \<longleftrightarrow> False"
    using ok by simp_all
  have fb: "detectTablesFallback st browser now
              = (if td_mode st = TableMode \<or> length tableBoxes = 0
                 then Inr (tableBoxes @ map (regionBox now) (enumerate 0 regions))
                 else Inr tableBoxes)"
    unfolding detectTablesFallback_def Let_def img option.case
      hl_def [symmetric] vl_def [symmetric] cells_def [symmetric] regions_def [symmetric]
      tableBoxes_def [symmetric]
    by (simp only: url ctx dims if_False)
  have empty: "tableBoxes = []" if "td_mode st = CellsMode \<longrightarrow> cells = []"
    using that by (simp add: tableBoxes_def)
  have "\<exists>boxes. detectTablesFallback st browser now = Inr boxes
          \<and> (regions = [] \<and> (td_mode st = CellsMode \<longrightarrow> cells = []) \<longrightarrow> boxes = [])"
    unfolding fb using empty by auto
  then show "\<exists>boxes. fst (detectTables st browser now) = Inr boxes
                \<and> (detectTableRegions (imagePixels img) (naturalWidth img) (naturalHeight img) = []
                    \<and> (td_mode st = CellsMode \<longrightarrow>
                         createCellsFromLines
                           (filterLines_default
                              (detectHorizontalLines (imagePixels img) (naturalWidth img)
                                 (naturalHeight img) (real (naturalWidth img) * 0.3))
                              (real (naturalHeight img)))
                           (filterLines_default
                              (detectVerticalLines (imagePixels img) (naturalWidth img)
                                 (naturalHeight img) (real (naturalHeight img) * 0.3))
                              (real (naturalWidth img)))
                           (real (naturalWidth img)) (real (naturalHeight img)) = [])
                    \<longrightarrow> boxes = [])"
    unfolding detectTables_fallback [OF assms] regions_def cells_def hl_def vl_def .
next
  assume "falsy (td_imageDataUrl st)"
  then have fb: "detectTablesFallback st browser now
                   = Inl (Error ''No image available for table detection'')"
    by (simp add: detectTablesFallback_def)
  show "fst (detectTables st browser now)
                = Inl (Error ''No image available for table detection'')"
    by (rule detectTables_throws(1) [OF assms fb])
  show "td_cvError (snd (detectTables st browser now))
                = Some (DetectionFailed ''No image available for table detection'')"
    by (rule detectTables_throws(2) [OF assms fb])
next
  assume "\<not> falsy (td_imageDataUrl st) \<and> doc_img browser = None"
  then have fb: "detectTablesFallback st browser now = Inl (Error ''Image element not found'')"
    by (simp add: detectTablesFallback_def)
  show "fst (detectTables st browser now) = Inl (Error ''Image element not found'')"
    by (rule detectTables_throws(1) [OF assms fb])
  show "td_cvError (snd (detectTables st browser now))
                = Some (DetectionFailed ''Image element not found'')"
    by (rule detectTables_throws(2) [OF assms fb])
next
  assume "\<not> falsy (td_imageDataUrl st) \<and> doc_img browser = Some img \<and> \<not> doc_canvas2d browser"
  then have fb: "detectTablesFallback st browser now
                   = Inl (Error ''Canvas context not available'')"
    by (simp add: detectTablesFallback_def)
  show "fst (detectTables st browser now) = Inl (Error ''Canvas context not available'')"
    by (rule detectTables_throws(1) [OF assms fb])
  show "td_cvError (snd (detectTables st browser now))
                = Some (DetectionFailed ''Canvas context not available'')"
    by (rule detectTables_throws(2) [OF assms fb])
qed

theorem C4_detectTables_without_engine_witness:
  "fst (detectTables (example_detection (Some ''page'') CellsMode) (example_browser 15) 0) = Inr []
   \<and> fst (detectTables (example_detection (Some []) CellsMode) (example_browser 15) 0)
       = Inl (Error ''No image available for table detection'')
   \<and> fst (detectTables (example_detection (Some ''page'') CellsMode) example_browser_no_element 0)
       = Inl (Error ''Image element not found'')
   \<and> fst (detectTables (example_detection (Some ''page'') CellsMode) example_browser_no_context 0)
       = Inl (Error ''Canvas context not available'')"
proof -
  have off: "\<not> td_cvLoaded (example_detection url CellsMode)" for url
    by (simp add: example_detection_def)
  have page: "\<not> falsy (td_imageDataUrl (example_detection (Some ''page'') CellsMode))
      \<and> doc_img (example_browser 15) = Some (example_grid_element 15)
      \<and> doc_canvas2d (example_browser 15)
      \<and> 0 < naturalWidth (example_grid_element 15) \<and> 0 < naturalHeight (example_grid_element 15)"
    by (simp add: example_browser_def example_grid_element_def example_detection_def falsy_def)
  have w: "naturalWidth (example_grid_element 15) = 31"
    and h: "naturalHeight (example_grid_element 15) = 31"
    and px: "imagePixels (example_grid_element 15)
               = grid_image 31 31 (in_bands 0 15 1) (in_bands 0 15 1)"
    by (simp_all add: example_grid_element_def)
  have regions: "detectTableRegions (imagePixels (example_grid_element 15))
                   (naturalWidth (example_grid_element 15)) (naturalHeight (example_grid_element 15)) = []"
    unfolding w h by (rule detectTableRegions_small) simp
  have cells: "createCellsFromLines
                 (filterLines_default
                    (detectHorizontalLines (imagePixels (example_grid_element 15))
                       (naturalWidth (example_grid_element 15))
                       (naturalHeight (example_grid_element 15))
                       (real (naturalWidth (example_grid_element 15)) * 0.3))
                    (real (naturalHeight (example_grid_element 15))))
                 (filterLines_default
                    (detectVerticalLines (imagePixels (example_grid_element 15))
                       (naturalWidth (example_grid_element 15))
                       (naturalHeight (example_grid_element 15))
                       (real (naturalHeight (example_grid_element 15)) * 0.3))
                    (real (naturalWidth (example_grid_element 15))))
                 (real (naturalWidth (example_grid_element 15)))
                 (real (naturalHeight (example_grid_element 15))) = []"
    unfolding w h px by (rule example_grid_15_no_cells)
  from C4_detectTables_without_engine [of "example_browser 15"
      "example_detection (Some ''page'') CellsMode" "example_grid_element 15" 0]
    off page regions cells
  have "fst (detectTables (example_detection (Some ''page'') CellsMode) (example_browser 15) 0) = Inr []"
    by blast
  moreover from C4_detectTables_without_engine [of "example_browser 15"
      "example_detection (Some []) CellsMode" "example_grid_element 15" 0] off
  have "fst (detectTables (example_detection (Some []) CellsMode) (example_browser 15) 0)
       = Inl (Error ''No image available for table detection'')"
    by (simp add: example_detection_def falsy_def)
  moreover from C4_detectTables_without_engine [of example_browser_no_element
      "example_detection (Some ''page'') CellsMode" "example_grid_element 15" 0] off
  have "fst (detectTables (example_detection (Some ''page'') CellsMode) example_browser_no_element 0)
       = Inl (Error ''Image element not found'')"
    by (simp add: example_detection_def example_browser_no_element_def falsy_def)
  moreover from C4_detectTables_without_engine [of example_browser_no_context
      "example_detection (Some ''page'') CellsMode" "example_grid_element 15" 0] off
  have "fst (detectTables (example_detection (Some ''page'') CellsMode) example_browser_no_context 0)
       = Inl (Error ''Canvas context not available'')"
    by (simp add: example_detection_def example_browser_no_context_def falsy_def)
  ultimately show ?thesis by simp
qed

text \<open>
  Claim C4, as stated, fails with an input image. The page image is there
  (\<^verbatim>\<open>imageDataUrl\<close> is \<^verbatim>\<open>page\<close>), the engine is not, and the document holds no
  \<^verbatim>\<open>img\<close> element, or holds the 31 by 31 image and the canvas gives no 2D context: in
  either mode the caller of \<open>detectTables\<close> receives an error, not an empty sequence, and
  the error is recorded in \<^verbatim>\<open>cvError\<close>.
\<close>

theorem C4_counterexample:
  "fst (detectTables (example_detection (Some ''page'') TableMode) example_browser_no_element 0)
     = Inl (Error ''Image element not found'')
   \<and> fst (detectTables (example_detection (Some ''page'') CellsMode) example_browser_no_element 0)
     = Inl (Error ''Image element not found'')
   \<and> td_cvError (snd (detectTables (example_detection (Some ''page'') CellsMode)
                        example_browser_no_element 0))
     = Some (DetectionFailed ''Image element not found'')
   \<and> fst (detectTables (example_detection (Some ''page'') CellsMode) example_browser_no_context 0)
     = Inl (Error ''Canvas context not available'')"
  by (simp add: detectTables_def detectTablesFallback_def example_detection_def
      example_browser_no_element_def example_browser_no_context_def falsy_def Let_def
      error_message_def)

end
